theory Spec2Isabelle
  imports Main "HOL-Library.Word" "HOL-Library.Sublist"
begin

section \<open>The Polymarket exchange adapter\<close>

text \<open>
  A shallow embedding of the adapter of package \<open>polymarket\<close>: the in-memory order
  ledger (\<open>SubmitOrder\<close>, \<open>QueryOpenOrders\<close>, \<open>CancelOrders\<close>), the dry-run gate and
  the market catalog (\<open>QueryMarkets\<close>, \<open>loadMarketsFromEnv\<close>, \<open>decodeMarketsJSON\<close>).

  Every method of the adapter holds the mutex \<open>mu\<close> while it touches \<open>markets\<close>,
  \<open>nextOrderID\<close> or \<open>orders\<close>, so a method is one atomic step on the state: it takes the
  \<open>Exchange\<close> value and returns the new one. What a method reads from outside (the
  process environment, the file system, the clock) is an argument of its model.
\<close>

subsection \<open>The process environment and the library functions applied to it\<close>

type_synonym environ = "string \<rightharpoonup> string"

text \<open>\<open>os.Getenv\<close>: the value of the key, the empty string when the key is unset.\<close>

definition Getenv :: "environ \<Rightarrow> string \<Rightarrow> string" where
  "Getenv env k = (case env k of None \<Rightarrow> [] | Some v \<Rightarrow> v)"

definition envMarketsFile :: string where
  "envMarketsFile = ''POLYMARKET_MARKETS_FILE''"

definition envMarketsJSON :: string where
  "envMarketsJSON = ''POLYMARKET_MARKETS_JSON''"

definition envDryRun :: string where
  "envDryRun = ''POLYMARKET_DRY_RUN''"

text \<open>
  \<open>strings.TrimSpace\<close> removes the leading and the trailing white space of a string, as
  Unicode defines it (\<open>unicode.IsSpace\<close>). A Go string is a sequence of bytes holding
  UTF-8, so the white space characters are the byte sequences below: the six ASCII ones,
  U+0085 and U+00A0 (two bytes), U+1680, U+2000 to U+200A, U+2028, U+2029, U+202F, U+205F
  and U+3000 (three bytes).
\<close>

definition spaceRunes :: "string list" where
  "spaceRunes =
     [[CHR 0x09], [CHR 0x0A], [CHR 0x0B], [CHR 0x0C], [CHR 0x0D], [CHR 0x20],
      [CHR 0xC2, CHR 0x85], [CHR 0xC2, CHR 0xA0],
      [CHR 0xE1, CHR 0x9A, CHR 0x80],
      [CHR 0xE2, CHR 0x80, CHR 0x80], [CHR 0xE2, CHR 0x80, CHR 0x81],
      [CHR 0xE2, CHR 0x80, CHR 0x82], [CHR 0xE2, CHR 0x80, CHR 0x83],
      [CHR 0xE2, CHR 0x80, CHR 0x84], [CHR 0xE2, CHR 0x80, CHR 0x85],
      [CHR 0xE2, CHR 0x80, CHR 0x86], [CHR 0xE2, CHR 0x80, CHR 0x87],
      [CHR 0xE2, CHR 0x80, CHR 0x88], [CHR 0xE2, CHR 0x80, CHR 0x89],
      [CHR 0xE2, CHR 0x80, CHR 0x8A],
      [CHR 0xE2, CHR 0x80, CHR 0xA8], [CHR 0xE2, CHR 0x80, CHR 0xA9],
      [CHR 0xE2, CHR 0x80, CHR 0xAF], [CHR 0xE2, CHR 0x81, CHR 0x9F],
      [CHR 0xE3, CHR 0x80, CHR 0x80]]"

text \<open>The length of the white space character a string starts with, 0 when there is none.\<close>

definition leadingSpace :: "string list \<Rightarrow> string \<Rightarrow> nat" where
  "leadingSpace runes s =
     (case filter (\<lambda>r. prefix r s) runes of [] \<Rightarrow> 0 | r # _ \<Rightarrow> length r)"

fun trimLeftFuel :: "nat \<Rightarrow> string list \<Rightarrow> string \<Rightarrow> string" where
  "trimLeftFuel 0 runes s = s"
| "trimLeftFuel (Suc n) runes s =
     (if leadingSpace runes s = 0 then s
      else trimLeftFuel n runes (drop (leadingSpace runes s) s))"

text \<open>
  Every round removes at least one byte, so \<open>length s\<close> rounds reach the first character
  that is no white space (lemma \<open>trimLeft_no_space\<close>).
\<close>

definition TrimLeftSpace :: "string \<Rightarrow> string" where
  "TrimLeftSpace s = trimLeftFuel (length s) spaceRunes s"

text \<open>
  The trailing side reads the string backwards: a string ends with a white space
  character exactly when its reversal starts with the reversed byte sequence.
\<close>

definition TrimRightSpace :: "string \<Rightarrow> string" where
  "TrimRightSpace s = rev (trimLeftFuel (length s) (map rev spaceRunes) (rev s))"

definition TrimSpace :: "string \<Rightarrow> string" where
  "TrimSpace s = TrimRightSpace (TrimLeftSpace s)"

text \<open>\<open>strconv.ParseBool\<close>: the twelve spellings it accepts, an error (\<open>None\<close>) otherwise.\<close>

definition ParseBool :: "string \<Rightarrow> bool option" where
  "ParseBool str =
     (if str \<in> set [''1'', ''t'', ''T'', ''TRUE'', ''true'', ''True''] then Some True
      else if str \<in> set [''0'', ''f'', ''F'', ''FALSE'', ''false'', ''False''] then Some False
      else None)"

subsection \<open>JSON documents\<close>

text \<open>
  \<open>json.Unmarshal\<close> first checks that its input is one JSON value (RFC 8259) and then
  stores the value into the Go variable it is given. The syntax tree below is what the
  check reads; a number keeps its text and a string is held decoded (escapes resolved,
  bytes that are no UTF-8 replaced by U+FFFD), as \<open>encoding/json\<close> does.
\<close>

datatype json =
    JNull
  | JBool bool
  | JNumber string
  | JString string
  | JArray "json list"
  | JObject "(string \<times> json) list"

definition isSpaceJSON :: "char \<Rightarrow> bool" where
  "isSpaceJSON c \<longleftrightarrow> c = CHR 0x20 \<or> c = CHR 0x09 \<or> c = CHR 0x0A \<or> c = CHR 0x0D"

definition skipSpace :: "string \<Rightarrow> string" where
  "skipSpace s = dropWhile isSpaceJSON s"

definition isDigit :: "char \<Rightarrow> bool" where
  "isDigit c \<longleftrightarrow> (48::nat) \<le> of_char c \<and> (of_char c :: nat) \<le> 57"

definition hexDigit :: "char \<Rightarrow> nat option" where
  "hexDigit c =
     (let n = (of_char c :: nat) in
      if 48 \<le> n \<and> n \<le> 57 then Some (n - 48)
      else if 97 \<le> n \<and> n \<le> 102 then Some (n - 87)
      else if 65 \<le> n \<and> n \<le> 70 then Some (n - 55)
      else None)"

text \<open>The four hexadecimal digits of an escape \<open>\uXXXX\<close>.\<close>

definition hex4 :: "string \<Rightarrow> nat option" where
  "hex4 s =
     (case s of
        a # b # c # d # _ \<Rightarrow>
          (case (hexDigit a, hexDigit b, hexDigit c, hexDigit d) of
             (Some x, Some y, Some z, Some w) \<Rightarrow> Some (((x * 16 + y) * 16 + z) * 16 + w)
           | _ \<Rightarrow> None)
      | _ \<Rightarrow> None)"

text \<open>\<open>getu4\<close>: the code unit of an escape \<open>\uXXXX\<close> that the string starts with.\<close>

definition getu4 :: "string \<Rightarrow> nat option" where
  "getu4 s =
     (case s of
        c # u # r \<Rightarrow> if c = CHR 0x5C \<and> u = CHR ''u'' then hex4 r else None
      | _ \<Rightarrow> None)"

text \<open>\<open>utf8.EncodeRune\<close> on a code point below 0x110000.\<close>

definition utf8Enc :: "nat \<Rightarrow> string" where
  "utf8Enc cp =
     (if cp < 0x80 then [char_of cp]
      else if cp < 0x800 then [char_of (0xC0 + cp div 0x40), char_of (0x80 + cp mod 0x40)]
      else if cp < 0x10000 then
        [char_of (0xE0 + cp div 0x1000), char_of (0x80 + (cp div 0x40) mod 0x40),
         char_of (0x80 + cp mod 0x40)]
      else
        [char_of (0xF0 + cp div 0x40000), char_of (0x80 + (cp div 0x1000) mod 0x40),
         char_of (0x80 + (cp div 0x40) mod 0x40), char_of (0x80 + cp mod 0x40)])"

definition replacementChar :: string where
  "replacementChar = [CHR 0xEF, CHR 0xBF, CHR 0xBD]"

definition byteAt :: "string \<Rightarrow> nat \<Rightarrow> nat" where
  "byteAt s i = (if i < length s then of_char (s ! i) else 0)"

text \<open>
  \<open>utf8.DecodeRune\<close>: the number of bytes of the well-formed UTF-8 sequence that a
  string starts with (its first byte is 0x80 or more), 0 when there is none.
\<close>

definition utf8Len :: "string \<Rightarrow> nat" where
  "utf8Len s =
     (let b0 = byteAt s 0; b1 = byteAt s 1; b2 = byteAt s 2; b3 = byteAt s 3;
          cont = (\<lambda>b. 0x80 \<le> b \<and> b \<le> 0xBF)
      in if 0xC2 \<le> b0 \<and> b0 \<le> 0xDF then (if cont b1 then 2 else 0)
         else if 0xE0 \<le> b0 \<and> b0 \<le> 0xEF then
           (if (if b0 = 0xE0 then 0xA0 else 0x80) \<le> b1 \<and>
               b1 \<le> (if b0 = 0xED then 0x9F else 0xBF) \<and> cont b2 then 3 else 0)
         else if 0xF0 \<le> b0 \<and> b0 \<le> 0xF4 then
           (if (if b0 = 0xF0 then 0x90 else 0x80) \<le> b1 \<and>
               b1 \<le> (if b0 = 0xF4 then 0x8F else 0xBF) \<and> cont b2 \<and> cont b3 then 4 else 0)
         else 0)"

definition unescape :: "char \<Rightarrow> char option" where
  "unescape c =
     (if c = CHR 0x22 \<or> c = CHR 0x5C \<or> c = CHR ''/'' then Some c
      else if c = CHR ''b'' then Some (CHR 0x08)
      else if c = CHR ''f'' then Some (CHR 0x0C)
      else if c = CHR ''n'' then Some (CHR 0x0A)
      else if c = CHR ''r'' then Some (CHR 0x0D)
      else if c = CHR ''t'' then Some (CHR 0x09)
      else None)"

definition emit :: "string \<Rightarrow> (string \<times> string) option \<Rightarrow> (string \<times> string) option" where
  "emit out r = (case r of None \<Rightarrow> None | Some (str, rest) \<Rightarrow> Some (out @ str, rest))"

text \<open>
  A string literal after its opening quote: the decoded string and the input after the
  closing quote. The first argument bounds the number of rounds; a round reads at least
  one byte, so the length of the input is enough, and the rounds only run out where the
  input has ended inside the literal (lemma \<open>scanStr_fuel\<close>).
\<close>

fun scanStr :: "nat \<Rightarrow> string \<Rightarrow> (string \<times> string) option" where
  "scanStr 0 s = None"
| "scanStr (Suc n) s =
     (case s of
        [] \<Rightarrow> None
      | c # r \<Rightarrow>
          if c = CHR 0x22 then Some ([], r)
          else if c = CHR 0x5C then
            (case r of
               [] \<Rightarrow> None
             | e # r1 \<Rightarrow>
                 if e = CHR ''u'' then
                   (case hex4 r1 of
                      None \<Rightarrow> None
                    | Some u \<Rightarrow>
                        if 0xD800 \<le> u \<and> u < 0xE000 then
                          (case getu4 (drop 4 r1) of
                             None \<Rightarrow> emit replacementChar (scanStr n (drop 4 r1))
                           | Some u2 \<Rightarrow>
                               if u < 0xDC00 \<and> 0xDC00 \<le> u2 \<and> u2 < 0xE000 then
                                 emit (utf8Enc (0x10000 + (u - 0xD800) * 0x400 + (u2 - 0xDC00)))
                                   (scanStr n (drop 10 r1))
                               else emit replacementChar (scanStr n (drop 4 r1)))
                        else emit (utf8Enc u) (scanStr n (drop 4 r1)))
                 else
                   (case unescape e of
                      None \<Rightarrow> None
                    | Some ch \<Rightarrow> emit [ch] (scanStr n r1)))
          else if (of_char c :: nat) < 0x20 then None
          else if (of_char c :: nat) < 0x80 then emit [c] (scanStr n r)
          else if utf8Len s = 0 then emit replacementChar (scanStr n r)
          else emit (take (utf8Len s) s) (scanStr n (drop (utf8Len s) s)))"

definition scanString :: "string \<Rightarrow> (string \<times> string) option" where
  "scanString s = scanStr (length s) s"

text \<open>
  A number: an optional minus sign, \<open>0\<close> or digits that do not start with \<open>0\<close>, an
  optional fraction, an optional exponent. The result is the text of the number and the
  input after it.
\<close>

definition scanDigits :: "string \<Rightarrow> (string \<times> string) option" where
  "scanDigits s =
     (if takeWhile isDigit s = [] then None
      else Some (takeWhile isDigit s, dropWhile isDigit s))"

definition scanInt :: "string \<Rightarrow> (string \<times> string) option" where
  "scanInt s =
     (case s of
        [] \<Rightarrow> None
      | c # r \<Rightarrow> if c = CHR ''0'' then Some ([c], r) else scanDigits s)"

definition scanFrac :: "string \<Rightarrow> (string \<times> string) option" where
  "scanFrac s =
     (case s of
        [] \<Rightarrow> Some ([], s)
      | c # r \<Rightarrow>
          if c = CHR ''.'' then emit [c] (scanDigits r) else Some ([], s))"

definition scanExp :: "string \<Rightarrow> (string \<times> string) option" where
  "scanExp s =
     (case s of
        [] \<Rightarrow> Some ([], s)
      | c # r \<Rightarrow>
          if c = CHR ''e'' \<or> c = CHR ''E'' then
            (case r of
               [] \<Rightarrow> None
             | d # r1 \<Rightarrow>
                 if d = CHR ''+'' \<or> d = CHR ''-'' then emit [c, d] (scanDigits r1)
                 else emit [c] (scanDigits r))
          else Some ([], s))"

definition scanNumber :: "string \<Rightarrow> (string \<times> string) option" where
  "scanNumber s =
     (let sign = (if s \<noteq> [] \<and> hd s = CHR ''-'' then ''-'' else []);
          s0 = drop (length sign) s
      in case scanInt s0 of
           None \<Rightarrow> None
         | Some (ip, s1) \<Rightarrow>
             (case scanFrac s1 of
                None \<Rightarrow> None
              | Some (fp, s2) \<Rightarrow> emit (sign @ ip @ fp) (scanExp s2)))"

text \<open>
  A value, the elements of an array after its opening bracket, the members of an object
  after its opening brace. The first argument bounds the input that is left, as in
  \<open>scanStr\<close> (lemma \<open>parse_fuel\<close>); the second is the depth of nesting, which
  \<open>encoding/json\<close> limits to 10000.
\<close>

definition maxNestingDepth :: nat where
  "maxNestingDepth = 10000"

fun parseValue :: "nat \<Rightarrow> nat \<Rightarrow> string \<Rightarrow> (json \<times> string) option"
  and parseElems :: "nat \<Rightarrow> nat \<Rightarrow> string \<Rightarrow> (json list \<times> string) option"
  and parseMembers :: "nat \<Rightarrow> nat \<Rightarrow> string \<Rightarrow> ((string \<times> json) list \<times> string) option"
where
  "parseValue 0 d s = None"
| "parseValue (Suc n) d s =
     (case s of
        [] \<Rightarrow> None
      | c # r \<Rightarrow>
          if c = CHR ''['' then
            (if maxNestingDepth \<le> d then None
             else if skipSpace r \<noteq> [] \<and> hd (skipSpace r) = CHR '']'' then
               Some (JArray [], tl (skipSpace r))
             else
               (case parseElems n (Suc d) (skipSpace r) of
                  None \<Rightarrow> None
                | Some (xs, t) \<Rightarrow> Some (JArray xs, t)))
          else if c = CHR ''{'' then
            (if maxNestingDepth \<le> d then None
             else if skipSpace r \<noteq> [] \<and> hd (skipSpace r) = CHR ''}'' then
               Some (JObject [], tl (skipSpace r))
             else
               (case parseMembers n (Suc d) (skipSpace r) of
                  None \<Rightarrow> None
                | Some (kvs, t) \<Rightarrow> Some (JObject kvs, t)))
          else if c = CHR 0x22 then
            (case scanString r of
               None \<Rightarrow> None
             | Some (str, t) \<Rightarrow> Some (JString str, t))
          else if take 4 s = ''true'' then Some (JBool True, drop 4 s)
          else if take 5 s = ''false'' then Some (JBool False, drop 5 s)
          else if take 4 s = ''null'' then Some (JNull, drop 4 s)
          else
            (case scanNumber s of
               None \<Rightarrow> None
             | Some (lit, t) \<Rightarrow> Some (JNumber lit, t)))"
| "parseElems 0 d s = None"
| "parseElems (Suc n) d s =
     (case parseValue (Suc n) d s of
        None \<Rightarrow> None
      | Some (x, r) \<Rightarrow>
          if skipSpace r = [] then None
          else if hd (skipSpace r) = CHR '']'' then Some ([x], tl (skipSpace r))
          else if hd (skipSpace r) = CHR '','' then
            (case parseElems n d (skipSpace (tl (skipSpace r))) of
               None \<Rightarrow> None
             | Some (xs, t) \<Rightarrow> Some (x # xs, t))
          else None)"
| "parseMembers 0 d s = None"
| "parseMembers (Suc n) d s =
     (case s of
        [] \<Rightarrow> None
      | q # r0 \<Rightarrow>
          if q \<noteq> CHR 0x22 then None
          else
            (case scanString r0 of
               None \<Rightarrow> None
             | Some (k, r1) \<Rightarrow>
                 if skipSpace r1 = [] \<or> hd (skipSpace r1) \<noteq> CHR '':'' then None
                 else
                   (case parseValue n d (skipSpace (tl (skipSpace r1))) of
                      None \<Rightarrow> None
                    | Some (v, r) \<Rightarrow>
                        if skipSpace r = [] then None
                        else if hd (skipSpace r) = CHR ''}'' then
                          Some ([(k, v)], tl (skipSpace r))
                        else if hd (skipSpace r) = CHR '','' then
                          (case parseMembers n d (skipSpace (tl (skipSpace r))) of
                             None \<Rightarrow> None
                           | Some (kvs, t) \<Rightarrow> Some ((k, v) # kvs, t))
                        else None)))"

text \<open>The check of \<open>json.Unmarshal\<close>: one value, white space before and after it.\<close>

definition parseJSON :: "string \<Rightarrow> json option" where
  "parseJSON b =
     (case parseValue (length b) 0 (skipSpace b) of
        None \<Rightarrow> None
      | Some (j, rest) \<Rightarrow> if skipSpace rest = [] then Some j else None)"

subsection \<open>Markets\<close>

text \<open>
  Modelled from the spec: the declarations of package \<open>types\<close> and of package
  \<open>fixedpoint\<close> are not among the sources. The records of this theory hold the fields
  that the adapter reads and writes (\<open>defaultExampleMarkets\<close>, \<open>SubmitOrder\<close>) and the
  fields that the specification lists for a market and for a submit request.

  \<open>fixedpoint.Value\<close> is a decimal number, held as its number of 1e-8 units.
  \<open>types.Time\<close> is a point in time, held as a number of nanoseconds.
  \<open>types.ExchangeName\<close> is a string type.
\<close>

type_synonym Value = int
type_synonym Time = int
type_synonym ExchangeName = string

definition Zero :: Value where
  "Zero = 0"

definition ExchangePolymarket :: ExchangeName where
  "ExchangePolymarket = ''polymarket''"

record Market =
  Exchange :: ExchangeName
  Symbol :: string
  LocalSymbol :: string
  BaseCurrency :: string
  QuoteCurrency :: string
  PricePrecision :: int
  VolumePrecision :: int
  QuotePrecision :: int
  TickSize :: Value
  StepSize :: Value
  MinNotional :: Value
  MinQuantity :: Value

text \<open>
  \<open>types.MarketMap\<close> is \<open>map[string]Market\<close>. A nil map and an empty map read alike
  (\<open>len\<close> is 0, every lookup misses) and the adapter never writes to a nil map, so both
  are \<open>Map.empty\<close> here.
\<close>

type_synonym MarketMap = "string \<rightharpoonup> Market"

subsection \<open>Storing a JSON value into a market, a market map and a slice of markets\<close>

datatype jsonerror =
    SyntaxError
  | UnmarshalTypeError string
  | UnmarshalerError string

text \<open>
  \<open>json.Unmarshal\<close> goes on after a value that does not fit its Go type: it keeps the
  first such error (\<open>UnmarshalTypeError\<close>), leaves the variable as it was and returns the
  error at the end. The error of an \<open>UnmarshalJSON\<close> method of the Go type ends the call
  at once. \<open>Done saved m\<close> is a value stored with the error kept so far, \<open>Abort err\<close> a
  call that an \<open>UnmarshalJSON\<close> method ended.
\<close>

datatype outcome = Done "jsonerror option" Market | Abort jsonerror

type_synonym decoder = "json \<Rightarrow> outcome"

definition firstError :: "jsonerror option \<Rightarrow> jsonerror option \<Rightarrow> jsonerror option" where
  "firstError saved err = (case saved of None \<Rightarrow> err | Some e \<Rightarrow> Some e)"

definition kindOf :: "json \<Rightarrow> string" where
  "kindOf j =
     (case j of
        JNull \<Rightarrow> ''null''
      | JBool _ \<Rightarrow> ''bool''
      | JNumber _ \<Rightarrow> ''number''
      | JString _ \<Rightarrow> ''string''
      | JArray _ \<Rightarrow> ''array''
      | JObject _ \<Rightarrow> ''object'')"

text \<open>
  Into \<open>map[string]Market\<close>: the members of an object in their order, a later member
  with the same key replacing an earlier one. The first argument stores one member's
  value into a fresh \<open>Market\<close>.
\<close>

fun storeMembers ::
  "decoder \<Rightarrow> (string \<times> json) list \<Rightarrow> jsonerror option \<Rightarrow> MarketMap \<Rightarrow>
   jsonerror option \<times> MarketMap" where
  "storeMembers dec [] saved mm = (saved, mm)"
| "storeMembers dec ((k, v) # kvs) saved mm =
     (case dec v of
        Abort err \<Rightarrow> (Some err, mm)
      | Done err m \<Rightarrow> storeMembers dec kvs (firstError saved err) (mm(k \<mapsto> m)))"

text \<open>
  \<open>json.Unmarshal(b, &mm)\<close> with \<open>mm\<close> a nil \<open>types.MarketMap\<close>: the error (\<open>None\<close> for
  nil) and the map after the call. Input that is no JSON value leaves the map alone, and
  so do \<open>null\<close> and a value that is no object.
\<close>

definition UnmarshalMarketMap :: "decoder \<Rightarrow> string \<Rightarrow> jsonerror option \<times> MarketMap" where
  "UnmarshalMarketMap dec b =
     (case parseJSON b of
        None \<Rightarrow> (Some SyntaxError, Map.empty)
      | Some j \<Rightarrow>
          (case j of
             JNull \<Rightarrow> (None, Map.empty)
           | JObject kvs \<Rightarrow> storeMembers dec kvs None Map.empty
           | _ \<Rightarrow> (Some (UnmarshalTypeError (kindOf j)), Map.empty)))"

text \<open>Into \<open>[]Market\<close>: the elements of an array in their order.\<close>

fun storeElems ::
  "decoder \<Rightarrow> json list \<Rightarrow> jsonerror option \<Rightarrow> Market list \<Rightarrow>
   jsonerror option \<times> Market list" where
  "storeElems dec [] saved arr = (saved, arr)"
| "storeElems dec (v # vs) saved arr =
     (case dec v of
        Abort err \<Rightarrow> (Some err, arr)
      | Done err m \<Rightarrow> storeElems dec vs (firstError saved err) (arr @ [m]))"

definition UnmarshalMarkets :: "decoder \<Rightarrow> string \<Rightarrow> jsonerror option \<times> Market list" where
  "UnmarshalMarkets dec b =
     (case parseJSON b of
        None \<Rightarrow> (Some SyntaxError, [])
      | Some j \<Rightarrow>
          (case j of
             JNull \<Rightarrow> (None, [])
           | JArray vs \<Rightarrow> storeElems dec vs None []
           | _ \<Rightarrow> (Some (UnmarshalTypeError (kindOf j)), [])))"

subsection \<open>The JSON form of a market\<close>

text \<open>
  Modelled from the spec: the declaration of \<open>types.Market\<close>, with the JSON names of its
  fields, and package \<open>fixedpoint\<close> are not among the sources. The specification lists
  the fields of a market record: symbol, venue-local symbol, base currency, quote
  currency, price precision, volume precision, quote precision, tick size, step size,
  minimum notional, minimum quantity; its examples write \<open>symbol\<close>, \<open>baseCurrency\<close> and
  \<open>quoteCurrency\<close>. \<open>unmarshalMarket\<close> stores a JSON value into a fresh \<open>Market\<close> as
  \<open>encoding/json\<close> does for a struct: a member is matched to a field by its name without
  regard to case, a member that matches no field is skipped, \<open>null\<close> changes nothing. A
  decimal is read in plain notation (digits, an optional fraction), from a number or a
  string.

  The functions of the adapter take the decoder of a market as an argument, and their
  theorems hold for every decoder; \<open>unmarshalMarket\<close> is the one that the examples run.
\<close>

definition zeroMarket :: Market where
  "zeroMarket =
     \<lparr>Exchange = [], Symbol = [], LocalSymbol = [], BaseCurrency = [],
      QuoteCurrency = [], PricePrecision = 0, VolumePrecision = 0, QuotePrecision = 0,
      TickSize = Zero, StepSize = Zero, MinNotional = Zero, MinQuantity = Zero\<rparr>"

text \<open>
  The folding of a member's name: ASCII letters to upper case; the Kelvin sign (U+212A)
  and the long s (U+017F) are the two characters outside ASCII that fold to a letter.
\<close>

fun foldName :: "nat \<Rightarrow> string \<Rightarrow> string" where
  "foldName 0 s = s"
| "foldName (Suc n) s =
     (case s of
        [] \<Rightarrow> []
      | c # r \<Rightarrow>
          if take 2 s = [CHR 0xC5, CHR 0xBF] then CHR ''S'' # foldName n (drop 2 s)
          else if take 3 s = [CHR 0xE2, CHR 0x84, CHR 0xAA] then CHR ''K'' # foldName n (drop 3 s)
          else if (97::nat) \<le> of_char c \<and> (of_char c :: nat) \<le> 122
            then char_of (of_char c - (32::nat)) # foldName n r
          else c # foldName n r)"

definition digitsValue :: "string \<Rightarrow> int" where
  "digitsValue ds = foldl (\<lambda>acc c. acc * 10 + (int (of_char c) - 48)) 0 ds"

text \<open>\<open>strconv.ParseInt(s, 10, 64)\<close> on the text of a JSON number.\<close>

definition parseInt64 :: "string \<Rightarrow> int option" where
  "parseInt64 lit =
     (let neg = (lit \<noteq> [] \<and> hd lit = CHR ''-'');
          ds = (if neg then tl lit else lit);
          n = (if neg then - digitsValue ds else digitsValue ds)
      in if ds \<noteq> [] \<and> list_all isDigit ds \<and> - (2 ^ 63) \<le> n \<and> n < 2 ^ 63 then Some n
         else None)"

text \<open>A decimal in plain notation, as its number of 1e-8 units (further digits cut).\<close>

definition parseDecimal :: "string \<Rightarrow> Value option" where
  "parseDecimal lit =
     (let neg = (lit \<noteq> [] \<and> hd lit = CHR ''-'');
          body = (if neg then tl lit else lit);
          ip = takeWhile isDigit body;
          rest = dropWhile isDigit body;
          fp = (if rest = [] then [] else tl rest);
          n = digitsValue ip * 10 ^ 8 + digitsValue (take 8 (fp @ ''00000000''))
      in if ip \<noteq> [] \<and> (rest = [] \<or> (hd rest = CHR ''.'' \<and> fp \<noteq> [] \<and> list_all isDigit fp))
         then Some (if neg then - n else n)
         else None)"

definition storeString :: "json \<Rightarrow> string \<Rightarrow> jsonerror option \<times> string" where
  "storeString v old =
     (case v of
        JString str \<Rightarrow> (None, str)
      | JNull \<Rightarrow> (None, old)
      | _ \<Rightarrow> (Some (UnmarshalTypeError (kindOf v)), old))"

definition storeInt :: "json \<Rightarrow> int \<Rightarrow> jsonerror option \<times> int" where
  "storeInt v old =
     (case v of
        JNumber lit \<Rightarrow>
          (case parseInt64 lit of
             Some n \<Rightarrow> (None, n)
           | None \<Rightarrow> (Some (UnmarshalTypeError (''number '' @ lit)), old))
      | JNull \<Rightarrow> (None, old)
      | _ \<Rightarrow> (Some (UnmarshalTypeError (kindOf v)), old))"

definition storeValue :: "json \<Rightarrow> Value option" where
  "storeValue v =
     (case v of
        JNull \<Rightarrow> Some Zero
      | JNumber lit \<Rightarrow> parseDecimal lit
      | JString str \<Rightarrow> parseDecimal str
      | _ \<Rightarrow> None)"

fun storeFields :: "(string \<times> json) list \<Rightarrow> jsonerror option \<Rightarrow> Market \<Rightarrow> outcome" where
  "storeFields [] saved m = Done saved m"
| "storeFields ((k, v) # kvs) saved m =
     (let f = foldName (length k) k in
      if f = ''SYMBOL'' then
        storeFields kvs (firstError saved (fst (storeString v (Market.Symbol m))))
          (m\<lparr>Market.Symbol := snd (storeString v (Market.Symbol m))\<rparr>)
      else if f = ''LOCALSYMBOL'' then
        storeFields kvs (firstError saved (fst (storeString v (LocalSymbol m))))
          (m\<lparr>LocalSymbol := snd (storeString v (LocalSymbol m))\<rparr>)
      else if f = ''BASECURRENCY'' then
        storeFields kvs (firstError saved (fst (storeString v (BaseCurrency m))))
          (m\<lparr>BaseCurrency := snd (storeString v (BaseCurrency m))\<rparr>)
      else if f = ''QUOTECURRENCY'' then
        storeFields kvs (firstError saved (fst (storeString v (QuoteCurrency m))))
          (m\<lparr>QuoteCurrency := snd (storeString v (QuoteCurrency m))\<rparr>)
      else if f = ''PRICEPRECISION'' then
        storeFields kvs (firstError saved (fst (storeInt v (PricePrecision m))))
          (m\<lparr>PricePrecision := snd (storeInt v (PricePrecision m))\<rparr>)
      else if f = ''VOLUMEPRECISION'' then
        storeFields kvs (firstError saved (fst (storeInt v (VolumePrecision m))))
          (m\<lparr>VolumePrecision := snd (storeInt v (VolumePrecision m))\<rparr>)
      else if f = ''QUOTEPRECISION'' then
        storeFields kvs (firstError saved (fst (storeInt v (QuotePrecision m))))
          (m\<lparr>QuotePrecision := snd (storeInt v (QuotePrecision m))\<rparr>)
      else if f \<in> set [''TICKSIZE'', ''STEPSIZE'', ''MINNOTIONAL'', ''MINQUANTITY''] then
        (case storeValue v of
           None \<Rightarrow> Abort (UnmarshalerError k)
         | Some x \<Rightarrow>
             storeFields kvs saved
               (if f = ''TICKSIZE'' then m\<lparr>TickSize := x\<rparr>
                else if f = ''STEPSIZE'' then m\<lparr>StepSize := x\<rparr>
                else if f = ''MINNOTIONAL'' then m\<lparr>MinNotional := x\<rparr>
                else m\<lparr>MinQuantity := x\<rparr>))
      else storeFields kvs saved m)"

definition unmarshalMarket :: decoder where
  "unmarshalMarket j =
     (case j of
        JNull \<Rightarrow> Done None zeroMarket
      | JObject kvs \<Rightarrow> storeFields kvs None zeroMarket
      | _ \<Rightarrow> Done (Some (UnmarshalTypeError (kindOf j))) zeroMarket)"

subsection \<open>Errors\<close>

text \<open>
  Every error of the adapter is built by \<open>fmt.Errorf\<close>. An error value holds the text
  that the format and its string arguments give and, where the format wraps an error
  (\<open>%w\<close>), the error wrapped, whose text follows. The constructors are the three kinds of
  the specification, one for each group of return sites.
\<close>

datatype oserror = PathError string string string

datatype error =
    UnsupportedOperation string
  | IOError string oserror
  | DecodeError string "jsonerror option"

subsection \<open>Loading the catalog\<close>

text \<open>The loop of \<open>decodeMarketsJSON\<close> over the slice, with the map \<open>out\<close> it fills.\<close>

fun bySymbol :: "Market list \<Rightarrow> MarketMap \<Rightarrow> error + MarketMap" where
  "bySymbol [] out = Inr out"
| "bySymbol (m # ms) out =
     (if Market.Symbol m = [] then
        Inl (DecodeError ''polymarket: market symbol is empty in json'' None)
      else bySymbol ms (out(Market.Symbol m \<mapsto> m)))"

definition decodeMarketsJSON :: "decoder \<Rightarrow> string \<Rightarrow> error + MarketMap" where
  "decodeMarketsJSON dec b =
     (case UnmarshalMarketMap dec b of
        (err, mm) \<Rightarrow>
          if err = None \<and> mm \<noteq> Map.empty then Inr mm
          else
            (case UnmarshalMarkets dec b of
               (Some err, arr) \<Rightarrow>
                 Inl (DecodeError ''polymarket: decode markets json failed: '' (Some err))
             | (None, arr) \<Rightarrow> bySymbol arr Map.empty))"

text \<open>\<open>os.ReadFile\<close> reads the file system, a function from a path to its outcome.\<close>

type_synonym filesystem = "string \<Rightarrow> oserror + string"

definition ReadFile :: "filesystem \<Rightarrow> string \<Rightarrow> oserror + string" where
  "ReadFile fs path = fs path"

definition loadMarketsFromEnv :: "decoder \<Rightarrow> environ \<Rightarrow> filesystem \<Rightarrow> error + MarketMap" where
  "loadMarketsFromEnv dec env fs =
     (let path = TrimSpace (Getenv env envMarketsFile) in
      if path \<noteq> [] then
        (case ReadFile fs path of
           Inl err \<Rightarrow> Inl (IOError (''polymarket: read '' @ envMarketsFile @ '' failed: '') err)
         | Inr b \<Rightarrow> decodeMarketsJSON dec b)
      else
        let raw = TrimSpace (Getenv env envMarketsJSON) in
        if raw \<noteq> [] then decodeMarketsJSON dec raw
        else Inr Map.empty)"

definition defaultExampleMarkets :: MarketMap where
  "defaultExampleMarkets =
     [''PM_BTC_15M_UP_YES_USDC'' \<mapsto>
        \<lparr>Exchange = [],
         Symbol = ''PM_BTC_15M_UP_YES_USDC'',
         LocalSymbol = ''PM_BTC_15M_UP_YES_USDC'',
         BaseCurrency = ''PM_BTC_15M_UP_YES'',
         QuoteCurrency = ''USDC'',
         PricePrecision = 4,
         VolumePrecision = 2,
         QuotePrecision = 2,
         TickSize = 10000,
         StepSize = 1000000,
         MinNotional = 100000000,
         MinQuantity = 100000000\<rparr>,
      ''PM_BTC_15M_UP_NO_USDC'' \<mapsto>
        \<lparr>Exchange = [],
         Symbol = ''PM_BTC_15M_UP_NO_USDC'',
         LocalSymbol = ''PM_BTC_15M_UP_NO_USDC'',
         BaseCurrency = ''PM_BTC_15M_UP_NO'',
         QuoteCurrency = ''USDC'',
         PricePrecision = 4,
         VolumePrecision = 2,
         QuotePrecision = 2,
         TickSize = 10000,
         StepSize = 1000000,
         MinNotional = 100000000,
         MinQuantity = 100000000\<rparr>]"

subsection \<open>Orders\<close>

datatype OrderStatus =
    OrderStatusNew
  | OrderStatusPartiallyFilled
  | OrderStatusFilled
  | OrderStatusCanceled
  | OrderStatusRejected

record SubmitOrder =
  Symbol :: string
  Side :: string
  Type :: string
  Quantity :: Value
  Price :: Value
  TimeInForce :: string
  Tag :: string

text \<open>
  \<open>types.Order\<close> embeds \<open>types.SubmitOrder\<close>: an order has the fields of its request
  (\<open>o.Symbol\<close>) and the fields below.
\<close>

record Order = SubmitOrder +
  Exchange :: ExchangeName
  OrderID :: "64 word"
  Status :: OrderStatus
  ExecutedQuantity :: Value
  IsWorking :: bool
  CreationTime :: Time
  UpdateTime :: Time
  OriginalStatus :: string
  IsFutures :: bool
  IsMargin :: bool
  IsIsolated :: bool

subsection \<open>The adapter and its ledger\<close>

record Exchange =
  key :: string
  secret :: string
  passphrase :: string
  markets :: MarketMap
  nextOrderID :: "64 word"
  orders :: "64 word \<rightharpoonup> Order"

definition New :: "string \<Rightarrow> string \<Rightarrow> string \<Rightarrow> Exchange" where
  "New k s p =
     \<lparr>key = k, secret = s, passphrase = p, markets = Map.empty,
      nextOrderID = 1, orders = Map.empty\<rparr>"

text \<open>
  The first statements of \<open>SubmitOrder\<close>: dry-run unless the environment holds a value
  that \<open>ParseBool\<close> reads, which then decides.
\<close>

definition dryRun :: "environ \<Rightarrow> bool" where
  "dryRun env =
     (let v = TrimSpace (Getenv env envDryRun) in
      if v \<noteq> [] then (case ParseBool v of Some b \<Rightarrow> b | None \<Rightarrow> True) else True)"

text \<open>
  \<open>SubmitOrder\<close> returns the order it created, or the error, and the state it leaves.
  \<open>nextOrderID\<close> is a \<open>uint64\<close>: \<open>e.nextOrderID++\<close> wraps around. The log line is not
  modelled. The method returns the pointer that it stores in the map; the model returns
  the order as a value, so it speaks of callers that do not write through that pointer.
\<close>

definition SubmitOrder ::
  "environ \<Rightarrow> Time \<Rightarrow> SubmitOrder \<Rightarrow> Exchange \<Rightarrow> (error + Order) \<times> Exchange" where
  "SubmitOrder env now order e =
     (if \<not> dryRun env then
        (Inl (UnsupportedOperation
           (''polymarket: real trading is not implemented yet; set '' @ envDryRun @
            ''=true to use dry-run'')), e)
      else
        let oid = nextOrderID e;
            created =
              \<lparr>Symbol = Symbol order, Side = Side order, Type = Type order,
               Quantity = Quantity order, Price = Price order,
               TimeInForce = TimeInForce order, Tag = Tag order,
               Exchange = ExchangePolymarket,
               OrderID = oid,
               Status = OrderStatusNew,
               ExecutedQuantity = Zero,
               IsWorking = True,
               CreationTime = now,
               UpdateTime = now,
               OriginalStatus = ''NEW'',
               IsFutures = False,
               IsMargin = False,
               IsIsolated = False\<rparr>
        in (Inr created, e\<lparr>nextOrderID := oid + 1, orders := (orders e)(oid \<mapsto> created)\<rparr>))"

text \<open>
  \<open>QueryOpenOrders\<close> ranges over the map \<open>orders\<close>. Go leaves the order of the visit
  open, so the function takes it as the argument \<open>ks\<close>: the keys as the range statement
  meets them. \<open>visits m ks\<close> says that \<open>ks\<close> is a visit of the map \<open>m\<close>, every key met
  once. The error the method returns is always nil.
\<close>

definition visits :: "('k \<rightharpoonup> 'v) \<Rightarrow> 'k list \<Rightarrow> bool" where
  "visits m ks \<longleftrightarrow> distinct ks \<and> set ks = dom m"

fun openOrders :: "(64 word \<rightharpoonup> Order) \<Rightarrow> string \<Rightarrow> 64 word list \<Rightarrow> Order list" where
  "openOrders m symbol [] = []"
| "openOrders m symbol (k # ks) =
     (case m k of
        None \<Rightarrow> openOrders m symbol ks
      | Some ord \<Rightarrow>
          if \<not> IsWorking ord then openOrders m symbol ks
          else if symbol \<noteq> [] \<and> Symbol ord \<noteq> symbol then openOrders m symbol ks
          else ord # openOrders m symbol ks)"

definition QueryOpenOrders :: "64 word list \<Rightarrow> string \<Rightarrow> Exchange \<Rightarrow> Order list" where
  "QueryOpenOrders ks symbol e = openOrders (orders e) symbol ks"

text \<open>
  \<open>CancelOrders\<close> reads the identifier of every order it is given. The stored order is
  reached through its pointer, so the assignments change the entry of the map.
\<close>

definition cancelOne :: "Time \<Rightarrow> Order \<Rightarrow> (64 word \<rightharpoonup> Order) \<Rightarrow> (64 word \<rightharpoonup> Order)" where
  "cancelOne now ord m =
     (case m (OrderID ord) of
        Some existing \<Rightarrow>
          m(OrderID ord \<mapsto>
              existing\<lparr>IsWorking := False, Status := OrderStatusCanceled,
                        OriginalStatus := ''CANCELED'', UpdateTime := now\<rparr>)
      | None \<Rightarrow> m)"

fun cancelAll :: "Time \<Rightarrow> Order list \<Rightarrow> (64 word \<rightharpoonup> Order) \<Rightarrow> (64 word \<rightharpoonup> Order)" where
  "cancelAll now [] m = m"
| "cancelAll now (ord # ords) m = cancelAll now ords (cancelOne now ord m)"

definition CancelOrders :: "Time \<Rightarrow> Order list \<Rightarrow> Exchange \<Rightarrow> error option \<times> Exchange" where
  "CancelOrders now ords e = (None, e\<lparr>orders := cancelAll now ords (orders e)\<rparr>)"

text \<open>
  \<open>QueryMarkets\<close> returns the cached catalog when there is one. Otherwise it loads the
  catalog, takes the built-in one when nothing was loaded, stamps every market (the body
  of the range loop is \<open>stamp\<close>: each key is assigned its own new value, so the order of
  the visit does not matter) and caches the result. It returns the map it caches; the
  model speaks of callers that do not write to that map.
\<close>

definition stamp :: "string \<Rightarrow> Market \<Rightarrow> Market" where
  "stamp symbol m =
     m\<lparr>Market.Exchange := ExchangePolymarket,
       Market.Symbol := (if Market.Symbol m = [] then symbol else Market.Symbol m)\<rparr>"

definition QueryMarkets ::
  "decoder \<Rightarrow> environ \<Rightarrow> filesystem \<Rightarrow> Exchange \<Rightarrow> (error + MarketMap) \<times> Exchange" where
  "QueryMarkets dec env fs e =
     (if markets e \<noteq> Map.empty then (Inr (markets e), e)
      else
        (case loadMarketsFromEnv dec env fs of
           Inl err \<Rightarrow> (Inl err, e)
         | Inr loaded \<Rightarrow>
             let ms = (if loaded = Map.empty then defaultExampleMarkets else loaded);
                 ms' = (\<lambda>symbol. map_option (stamp symbol) (ms symbol))
             in (Inr ms', e\<lparr>markets := ms'\<rparr>)))"

subsection \<open>The life of a process\<close>

text \<open>
  The state of the adapter changes through the three methods that write it. A process
  starts with \<open>New\<close> and makes calls one after the other; each call brings what it reads
  from outside (the environment and the file system may change between calls).
\<close>

datatype call =
    CallQueryMarkets environ filesystem
  | CallSubmitOrder environ Time SubmitOrder
  | CallCancelOrders Time "Order list"

fun perform :: "decoder \<Rightarrow> call \<Rightarrow> Exchange \<Rightarrow> Exchange" where
  "perform dec (CallQueryMarkets env fs) e = snd (QueryMarkets dec env fs e)"
| "perform dec (CallSubmitOrder env now order) e = snd (SubmitOrder env now order e)"
| "perform dec (CallCancelOrders now ords) e = snd (CancelOrders now ords e)"

definition run :: "decoder \<Rightarrow> call list \<Rightarrow> Exchange \<Rightarrow> Exchange" where
  "run dec cs e = fold (perform dec) cs e"

text \<open>The identifiers that the successful \<open>SubmitOrder\<close> calls of a run return, in order.\<close>

fun issued :: "decoder \<Rightarrow> call list \<Rightarrow> Exchange \<Rightarrow> 64 word list" where
  "issued dec [] e = []"
| "issued dec (c # cs) e =
     (case c of
        CallSubmitOrder env now order \<Rightarrow>
          (case fst (SubmitOrder env now order e) of
             Inr created \<Rightarrow> [OrderID created]
           | Inl err \<Rightarrow> [])
      | _ \<Rightarrow> []) @ issued dec cs (perform dec c e)"

subsection \<open>Predicates of the ledger\<close>

text \<open>
  \<open>keyed m\<close>: every order of the map carries the identifier it is stored under.
  \<open>canceled ord\<close>: the order has reached its final state.
\<close>

definition keyed :: "(64 word \<rightharpoonup> Order) \<Rightarrow> bool" where
  "keyed m \<longleftrightarrow> (\<forall>k ord. m k = Some ord \<longrightarrow> OrderID ord = k)"

definition canceled :: "Order \<Rightarrow> bool" where
  "canceled ord \<longleftrightarrow> Status ord = OrderStatusCanceled \<and> \<not> IsWorking ord"

subsection \<open>An example request\<close>

definition exampleOrder :: "string \<Rightarrow> SubmitOrder" where
  "exampleOrder symbol =
     \<lparr>Symbol = symbol, Side = ''BUY'', Type = ''LIMIT'', Quantity = 100000000,
      Price = 50000000, TimeInForce = ''GTC'', Tag = []\<rparr>"

text \<open>A reference to an order, as \<open>CancelOrders\<close> reads it: only the identifier counts.\<close>

definition exampleRef :: "64 word \<Rightarrow> Order" where
  "exampleRef oid =
     \<lparr>Symbol = [], Side = [], Type = [], Quantity = 0, Price = 0, TimeInForce = [], Tag = [],
      Exchange = [], OrderID = oid, Status = OrderStatusNew, ExecutedQuantity = 0,
      IsWorking = False, CreationTime = 0, UpdateTime = 0, OriginalStatus = [],
      IsFutures = False, IsMargin = False, IsIsolated = False\<rparr>"

subsection \<open>Example payloads and file systems\<close>

definition mappingExample :: string where
  "mappingExample = ''{\"Y\":{\"symbol\":\"\",\"baseCurrency\":\"Y\"}}''"

definition arrayExample :: string where
  "arrayExample = ''[{\"symbol\":\"X\",\"baseCurrency\":\"X\",\"quoteCurrency\":\"USDC\"}]''"

definition blankFirst :: string where
  "blankFirst = ''[{\"symbol\":\"\",\"baseCurrency\":\"Y\"}]''"

definition blankSecond :: string where
  "blankSecond = ''[{\"symbol\":\"X\"},{\"symbol\":\"\",\"baseCurrency\":\"B\"},{\"symbol\":\"\"}]''"

definition noFiles :: filesystem where
  "noFiles path = Inl (PathError ''open'' path ''no such file or directory'')"

definition oneFile :: filesystem where
  "oneFile path =
     (if path = ''markets.json'' then Inr ''{\"Y\":{\"symbol\":\"\",\"baseCurrency\":\"Y\"}}''
      else Inl (PathError ''open'' path ''no such file or directory''))"

section \<open>Properties\<close>

subsection \<open>The bounds on the rounds are enough\<close>

text \<open>
  The functions that trim and that read JSON run for a bounded number of rounds, and the
  bound is the length of their input. The lemmas of this subsection show that the bound
  is never what ends them: a trimmed string starts and ends with no white space, and a
  larger bound gives the same result.
\<close>

lemma leadingSpace_pos:
  assumes "\<forall>r \<in> set runes. r \<noteq> []" and "leadingSpace runes s \<noteq> 0"
  shows "0 < leadingSpace runes s \<and> leadingSpace runes s \<le> length s"
proof (cases "filter (\<lambda>r. prefix r s) runes")
  case Nil
  with assms(2) show ?thesis
    by (simp add: leadingSpace_def)
next
  case (Cons r rs)
  then have "r \<in> set (filter (\<lambda>r. prefix r s) runes)"
    by simp
  then have "r \<in> set runes" "prefix r s"
    by simp_all
  with assms(1) have "r \<noteq> []" "length r \<le> length s"
    by (auto simp: prefix_length_le)
  with Cons show ?thesis
    by (simp add: leadingSpace_def)
qed

lemma leadingSpace_Nil: "\<forall>r \<in> set runes. r \<noteq> [] \<Longrightarrow> leadingSpace runes [] = 0"
  using leadingSpace_pos [of runes "[]"] by auto

lemma trimLeft_no_space:
  "\<forall>r \<in> set runes. r \<noteq> [] \<Longrightarrow> length s \<le> n \<Longrightarrow>
     leadingSpace runes (trimLeftFuel n runes s) = 0"
proof (induction n arbitrary: s)
  case 0
  then show ?case
    by (simp add: leadingSpace_Nil)
next
  case (Suc n)
  show ?case
  proof (cases "leadingSpace runes s = 0")
    case True
    then show ?thesis by simp
  next
    case False
    from leadingSpace_pos [OF Suc.prems(1) False] Suc.prems(2)
    have "length (drop (leadingSpace runes s) s) \<le> n"
      by (simp only: length_drop) arith
    from Suc.IH [OF Suc.prems(1) this] False show ?thesis
      by simp
  qed
qed

lemma spaceRunes_nonempty: "\<forall>r \<in> set spaceRunes. r \<noteq> []"
  by (simp add: spaceRunes_def)

lemma TrimSpace_trimmed:
  "leadingSpace spaceRunes (TrimLeftSpace s) = 0 \<and>
   leadingSpace (map rev spaceRunes) (rev (TrimRightSpace s)) = 0"
  using spaceRunes_nonempty
  by (simp add: TrimLeftSpace_def TrimRightSpace_def trimLeft_no_space)

lemma emit_Some: "emit out r = Some (x, rest) \<longleftrightarrow> (\<exists>str. r = Some (str, rest) \<and> x = out @ str)"
  by (auto simp: emit_def split: option.splits)

lemma utf8Len_le: "utf8Len s \<noteq> 0 \<Longrightarrow> 0 < utf8Len s \<and> utf8Len s \<le> length s"
  by (auto simp: utf8Len_def Let_def byteAt_def split: if_splits)

lemma scanStr_shorter: "scanStr n s = Some (x, r) \<Longrightarrow> length r < length s"
proof (induction n arbitrary: s x r)
  case 0
  then show ?case by simp
next
  case (Suc n)
  from Suc.prems obtain c t where s: "s = c # t"
    by (cases s) auto
  have rec: "length r' < length s" if "scanStr n u = Some (y, r')" "length u \<le> length s" for u y r'
    using Suc.IH [OF that(1)] that(2) by simp
  from Suc.prems s show ?case
    by (auto simp: emit_Some split: if_splits list.splits option.splits
        dest!: rec)
qed


lemma scanStr_fuel:
  "length s \<le> n \<Longrightarrow> length s \<le> m \<Longrightarrow> scanStr n s = scanStr m s"
proof (induction n arbitrary: s m)
  case 0
  then show ?case by (cases m) simp_all
next
  case (Suc n)
  show ?case
  proof (cases s)
    case Nil
    then show ?thesis by (cases m) simp_all
  next
    case (Cons c t)
    with Suc.prems obtain m' where m: "m = Suc m'"
      by (cases m) auto
    have rec: "scanStr n u = scanStr m' u" if "length u < length s" for u
      using Suc.IH [of u m'] that Suc.prems m by simp
    have len: "length (drop (utf8Len s) s) < length s" if "utf8Len s \<noteq> 0"
      using utf8Len_le [OF that] by (simp only: length_drop) arith
    show ?thesis
      unfolding m scanStr.simps Cons list.case
      using rec len Cons
      by (auto split: list.splits option.splits)
  qed
qed

lemma scanString_shorter: "scanString s = Some (x, r) \<Longrightarrow> length r < length s"
  unfolding scanString_def by (rule scanStr_shorter)

lemma scanDigits_shorter: "scanDigits s = Some (x, r) \<Longrightarrow> length r < length s"
  by (cases s) (auto simp: scanDigits_def length_dropWhile_le less_Suc_eq_le split: if_splits)

lemma scanNumber_shorter: "scanNumber s = Some (x, r) \<Longrightarrow> length r < length s"
proof -
  assume a: "scanNumber s = Some (x, r)"
  have int: "length r1 < length u" if "scanInt u = Some (y, r1)" for u y r1
    using that scanDigits_shorter [of u y r1]
    by (auto simp: scanInt_def split: list.splits if_splits)
  have frac: "length r1 \<le> length u" if "scanFrac u = Some (y, r1)" for u y r1
    using that
    by (auto simp: scanFrac_def emit_Some split: list.splits if_splits
        dest!: scanDigits_shorter)
  have exp: "length r1 \<le> length u" if "scanExp u = Some (y, r1)" for u y r1
    using that
    by (auto simp: scanExp_def emit_Some split: list.splits if_splits
        dest!: scanDigits_shorter)
  from a show ?thesis
    by (auto simp: scanNumber_def Let_def emit_Some split: option.splits if_splits
        dest!: int frac exp; linarith)
qed

lemma skipSpace_le: "length (skipSpace s) \<le> length s"
  by (simp add: skipSpace_def length_dropWhile_le)


lemma tl_skipSpace_le: "length (skipSpace (tl (skipSpace r))) \<le> length r"
proof -
  have "length (skipSpace (tl (skipSpace r))) \<le> length (tl (skipSpace r))"
    by (rule skipSpace_le)
  also have "\<dots> \<le> length (skipSpace r)"
    by simp
  also have "\<dots> \<le> length r"
    by (rule skipSpace_le)
  finally show ?thesis .
qed

lemma parse_shorter:
  "(\<forall>j r. parseValue n d s = Some (j, r) \<longrightarrow> length r < length s) \<and>
   (\<forall>xs r. parseElems n d s = Some (xs, r) \<longrightarrow> length r < length s) \<and>
   (\<forall>kvs r. parseMembers n d s = Some (kvs, r) \<longrightarrow> length r < length s)"
proof (induction n arbitrary: d s)
  case 0
  show ?case by simp
next
  case (Suc n)
  have elems: "length r < length u" if "parseElems n d' u = Some (xs, r)" for d' u xs r
    using Suc.IH [of d' u] that by blast
  have members: "length r < length u" if "parseMembers n d' u = Some (kvs, r)" for d' u kvs r
    using Suc.IH [of d' u] that by blast
  have nested: "length r < length u" if "parseValue n d' u = Some (j, r)" for d' u j r
    using Suc.IH [of d' u] that by blast
  have "value": "length r < length s" if v: "parseValue (Suc n) d s = Some (j, r)" for j r
  proof (cases s)
    case Nil
    with v show ?thesis by simp
  next
    case (Cons c t)
    have sk: "length (skipSpace t) \<le> length t"
      by (rule skipSpace_le)
    from v Cons sk show ?thesis
      by (auto split: if_splits option.splits
          dest!: elems members scanString_shorter scanNumber_shorter; simp?)
  qed
  have elems': "length r < length s" if e: "parseElems (Suc n) d s = Some (xs, r)" for xs r
  proof -
    from e obtain x r0 where first: "parseValue (Suc n) d s = Some (x, r0)"
      by (auto split: option.splits)
    from "value" [OF first] have "length r0 < length s" .
    moreover have "length (skipSpace r0) \<le> length r0"
      by (rule skipSpace_le)
    moreover have "length (skipSpace (tl (skipSpace r0))) \<le> length r0"
      by (rule tl_skipSpace_le)
    ultimately show ?thesis
      using e first
      by (auto split: if_splits option.splits dest!: elems; simp?)
  qed
  have members': "length r < length s" if m: "parseMembers (Suc n) d s = Some (kvs, r)" for kvs r
  proof (cases s)
    case Nil
    with m show ?thesis by simp
  next
    case (Cons q t)
    have a: "length (skipSpace (tl (skipSpace u))) \<le> length u" for u
      by (rule tl_skipSpace_le)
    have b: "length (skipSpace u) \<le> length u" for u
      by (rule skipSpace_le)
    from m Cons obtain k r1 v r2 where
      key: "scanString t = Some (k, r1)" and
      val: "parseValue n d (skipSpace (tl (skipSpace r1))) = Some (v, r2)" and
      rest: "r = tl (skipSpace r2) \<or>
        (\<exists>kvs'. parseMembers n d (skipSpace (tl (skipSpace r2))) = Some (kvs', r))"
      by (auto split: if_splits option.splits)
    from scanString_shorter [OF key] have "length r1 < length t" .
    moreover from nested [OF val] a [of r1] have "length r2 < length r1"
      by simp
    moreover from rest have "length r \<le> length r2"
    proof
      assume "r = tl (skipSpace r2)"
      with b [of r2] show ?thesis by simp
    next
      assume "\<exists>kvs'. parseMembers n d (skipSpace (tl (skipSpace r2))) = Some (kvs', r)"
      then obtain kvs' where "parseMembers n d (skipSpace (tl (skipSpace r2))) = Some (kvs', r)" ..
      from members [OF this] a [of r2] show ?thesis by simp
    qed
    ultimately show ?thesis
      using Cons by simp
  qed
  from "value" elems' members' show ?case
    by blast
qed


lemma parseValue_shorter: "parseValue n d s = Some (j, r) \<Longrightarrow> length r < length s"
  using parse_shorter [of n d s] by blast

lemma parse_fuel:
  "length s \<le> n \<Longrightarrow> length s \<le> m \<Longrightarrow>
     parseValue n d s = parseValue m d s \<and>
     parseElems n d s = parseElems m d s \<and>
     parseMembers n d s = parseMembers m d s"
proof (induction n arbitrary: d s m)
  case 0
  then show ?case by (cases m) simp_all
next
  case (Suc n)
  show ?case
  proof (cases s)
    case Nil
    then show ?thesis by (cases m) simp_all
  next
    case (Cons c t)
    with Suc.prems obtain m' where m: "m = Suc m'"
      by (cases m) auto
    have rec: "parseValue n d' u = parseValue m' d' u \<and>
        parseElems n d' u = parseElems m' d' u \<and>
        parseMembers n d' u = parseMembers m' d' u" if "length u < length s" for d' u
      using Suc.IH [of u m' d'] that Suc.prems m by simp
    have sk: "length (skipSpace t) < length s"
      using skipSpace_le [of t] Cons by simp
    from rec [OF sk, of "Suc d"]
    have e1: "parseElems n (Suc d) (skipSpace t) = parseElems m' (Suc d) (skipSpace t)"
      and m1: "parseMembers n (Suc d) (skipSpace t) = parseMembers m' (Suc d) (skipSpace t)"
      by simp_all
    have "value": "parseValue (Suc n) d s = parseValue (Suc m') d s"
      by (simp only: Cons parseValue.simps list.case e1 m1)
    have elems: "parseElems (Suc n) d s = parseElems (Suc m') d s"
    proof (cases "parseValue (Suc m') d s")
      case None
      with "value" show ?thesis by simp
    next
      case (Some p)
      obtain x r where p: "p = (x, r)"
        by (cases p)
      from parseValue_shorter [of "Suc m'" d s x r] Some p tl_skipSpace_le [of r]
      have "length (skipSpace (tl (skipSpace r))) < length s"
        by simp
      from rec [OF this, of d] "value" Some p show ?thesis
        by simp
    qed
    have members: "parseMembers (Suc n) d s = parseMembers (Suc m') d s"
    proof (cases "scanString t")
      case None
      then show ?thesis by (simp add: Cons)
    next
      case (Some p)
      obtain k r1 where p: "p = (k, r1)"
        by (cases p)
      let ?u = "skipSpace (tl (skipSpace r1))"
      from scanString_shorter [of t k r1] Some p tl_skipSpace_le [of r1] Cons
      have u: "length ?u < length s"
        by simp
      note first = rec [OF u, of d]
      show ?thesis
      proof (cases "parseValue m' d ?u")
        case None
        with first Some p show ?thesis
          by (simp add: Cons)
      next
        case inner: (Some w)
        obtain v r2 where w: "w = (v, r2)"
          by (cases w)
        from parseValue_shorter [of m' d ?u v r2] inner w u tl_skipSpace_le [of r2]
        have "length (skipSpace (tl (skipSpace r2))) < length s"
          by simp
        from rec [OF this, of d] first inner w Some p show ?thesis
          by (simp add: Cons)
      qed
    qed
    from "value" elems members show ?thesis
      by (simp add: m)
  qed
qed

text \<open>More rounds than the length of the payload change nothing.\<close>

lemma parseJSON_fuel:
  "length b \<le> n \<Longrightarrow>
     parseJSON b =
       (case parseValue n 0 (skipSpace b) of
          None \<Rightarrow> None
        | Some (j, rest) \<Rightarrow> if skipSpace rest = [] then Some j else None)"
  using parse_fuel [of "skipSpace b" "length b" n 0] skipSpace_le [of b]
  by (simp add: parseJSON_def)

lemma scanString_fuel: "length s \<le> n \<Longrightarrow> scanString s = scanStr n s"
  unfolding scanString_def by (rule scanStr_fuel) simp_all

subsection \<open>The dry-run gate\<close>

lemma SubmitOrder_live:
  "\<not> dryRun env \<Longrightarrow>
     SubmitOrder env now order e =
       (Inl (UnsupportedOperation
          (''polymarket: real trading is not implemented yet; set '' @ envDryRun @
           ''=true to use dry-run'')), e)"
  by (simp add: SubmitOrder_def)

lemma SubmitOrder_dry_state:
  "dryRun env \<Longrightarrow>
     snd (SubmitOrder env now order e) =
       e\<lparr>nextOrderID := nextOrderID e + 1,
         orders := (orders e)(nextOrderID e \<mapsto> projr (fst (SubmitOrder env now order e)))\<rparr>"
  by (simp add: SubmitOrder_def Let_def)

lemma SubmitOrder_dry_created:
  "dryRun env \<Longrightarrow>
     \<exists>created. fst (SubmitOrder env now order e) = Inr created \<and>
       OrderID created = nextOrderID e \<and> Status created = OrderStatusNew \<and>
       IsWorking created \<and> ExecutedQuantity created = Zero \<and>
       Symbol created = Symbol order"
  by (simp add: SubmitOrder_def Let_def)

lemma ParseBool_empty: "ParseBool [] = None"
  by (simp add: ParseBool_def)

lemma dryRun_iff: "dryRun env \<longleftrightarrow> ParseBool (TrimSpace (Getenv env envDryRun)) \<noteq> Some False"
  by (auto simp: dryRun_def Let_def ParseBool_empty split: option.splits)

lemma TrimSpace_empty: "TrimSpace [] = []"
  by (simp add: TrimSpace_def TrimLeftSpace_def TrimRightSpace_def)

lemma dryRun_unset: "env envDryRun = None \<Longrightarrow> dryRun env"
  by (simp add: dryRun_def Getenv_def TrimSpace_empty)

lemma names_envDryRun:
  "sublist envDryRun
     (''polymarket: real trading is not implemented yet; set '' @ envDryRun @
      ''=true to use dry-run'')"
  by (rule sublist_appendI)

text \<open>
  C6. If the dry-run flag is explicitly set to false (the value of \<open>POLYMARKET_DRY_RUN\<close>,
  white space trimmed, is a spelling that \<open>ParseBool\<close> reads as false), \<open>SubmitOrder\<close>
  fails with \<open>UnsupportedOperation\<close>, whatever the order and the state are, and the
  message names the flag. If the flag is unset, or its value is not parseable as a
  boolean, the mode is dry-run and the submission succeeds.
\<close>

theorem C6_dry_run_gate:
  "(ParseBool (TrimSpace (Getenv env envDryRun)) = Some False \<longrightarrow>
      \<not> dryRun env \<and>
      (\<exists>msg. SubmitOrder env now order e = (Inl (UnsupportedOperation msg), e) \<and>
         msg = ''polymarket: real trading is not implemented yet; set '' @ envDryRun @
               ''=true to use dry-run'' \<and>
         sublist envDryRun msg)) \<and>
   (env envDryRun = None \<or> ParseBool (TrimSpace (Getenv env envDryRun)) = None \<longrightarrow>
      dryRun env \<and> (\<exists>created. fst (SubmitOrder env now order e) = Inr created))"
proof (intro conjI impI)
  assume off: "ParseBool (TrimSpace (Getenv env envDryRun)) = Some False"
  then show live: "\<not> dryRun env"
    by (simp add: dryRun_iff)
  from SubmitOrder_live [OF live] names_envDryRun
  show "\<exists>msg. SubmitOrder env now order e = (Inl (UnsupportedOperation msg), e) \<and>
          msg = ''polymarket: real trading is not implemented yet; set '' @ envDryRun @
                ''=true to use dry-run'' \<and>
          sublist envDryRun msg"
    by simp
next
  assume "env envDryRun = None \<or> ParseBool (TrimSpace (Getenv env envDryRun)) = None"
  then show dry: "dryRun env"
  proof
    assume "env envDryRun = None"
    then show ?thesis by (rule dryRun_unset)
  next
    assume "ParseBool (TrimSpace (Getenv env envDryRun)) = None"
    then show ?thesis by (simp add: dryRun_iff)
  qed
  from SubmitOrder_dry_created [OF dry]
  show "\<exists>created. fst (SubmitOrder env now order e) = Inr created"
    by blast
qed

lemma trim_false: "TrimSpace '' false '' = ''false''"
  by (simp add: TrimSpace_def TrimLeftSpace_def TrimRightSpace_def leadingSpace_def
      spaceRunes_def)

lemma trim_maybe: "TrimSpace ''maybe'' = ''maybe''"
  by (simp add: TrimSpace_def TrimLeftSpace_def TrimRightSpace_def leadingSpace_def
      spaceRunes_def)

theorem C6_dry_run_gate_witness:
  "ParseBool (TrimSpace (Getenv [envDryRun \<mapsto> '' false ''] envDryRun)) = Some False \<and>
   \<not> dryRun [envDryRun \<mapsto> '' false ''] \<and>
   SubmitOrder [envDryRun \<mapsto> '' false ''] 7
       \<lparr>Symbol = ''PM_BTC_15M_UP_YES_USDC'', Side = ''BUY'', Type = ''LIMIT'',
        Quantity = 100000000, Price = 50000000, TimeInForce = ''GTC'', Tag = []\<rparr>
       (New [] [] []) =
     (Inl (UnsupportedOperation
        ''polymarket: real trading is not implemented yet; set POLYMARKET_DRY_RUN=true to use dry-run''),
      New [] [] []) \<and>
   ParseBool (TrimSpace (Getenv [envDryRun \<mapsto> ''maybe''] envDryRun)) = None \<and>
   dryRun [envDryRun \<mapsto> ''maybe''] \<and>
   (\<exists>created. fst (SubmitOrder [envDryRun \<mapsto> ''maybe''] 7
       \<lparr>Symbol = ''PM_BTC_15M_UP_YES_USDC'', Side = ''BUY'', Type = ''LIMIT'',
        Quantity = 100000000, Price = 50000000, TimeInForce = ''GTC'', Tag = []\<rparr>
       (New [] [] [])) = Inr created) \<and>
   dryRun Map.empty"
proof -
  have off: "ParseBool (TrimSpace (Getenv [envDryRun \<mapsto> '' false ''] envDryRun)) = Some False"
    by (simp add: Getenv_def trim_false ParseBool_def)
  have odd: "ParseBool (TrimSpace (Getenv [envDryRun \<mapsto> ''maybe''] envDryRun)) = None"
    by (simp add: Getenv_def trim_maybe ParseBool_def)
  have unset: "(Map.empty :: environ) envDryRun = None"
    by simp
  note gate = C6_dry_run_gate
  from gate [of "[envDryRun \<mapsto> '' false '']"] off
    gate [of "[envDryRun \<mapsto> ''maybe'']"] odd
    gate [of Map.empty] unset
  show ?thesis
    by (simp add: envDryRun_def)
qed

text \<open>
  C10. With the dry-run flag set to false, the failing \<open>SubmitOrder\<close> call leaves the
  state as it was: the counter is not incremented and no order is stored. A dry-run
  submission after it returns what it would have returned before the failed call, with
  the identifier that the counter held.
\<close>

theorem C10_failed_submit_keeps_state:
  assumes "ParseBool (TrimSpace (Getenv env envDryRun)) = Some False"
    and "dryRun env'"
  shows "\<exists>err created.
           SubmitOrder env now order e = (Inl err, e) \<and>
           nextOrderID (snd (SubmitOrder env now order e)) = nextOrderID e \<and>
           orders (snd (SubmitOrder env now order e)) = orders e \<and>
           fst (SubmitOrder env' now' order' (snd (SubmitOrder env now order e))) = Inr created \<and>
           fst (SubmitOrder env' now' order' e) = Inr created \<and>
           OrderID created = nextOrderID e"
proof -
  from assms(1) have "\<not> dryRun env"
    by (simp add: dryRun_iff)
  from SubmitOrder_live [OF this]
  have failed: "SubmitOrder env now order e =
      (Inl (UnsupportedOperation
         (''polymarket: real trading is not implemented yet; set '' @ envDryRun @
          ''=true to use dry-run'')), e)" .
  from SubmitOrder_dry_created [OF assms(2), of now' order' e]
  obtain created where "fst (SubmitOrder env' now' order' e) = Inr created"
    and "OrderID created = nextOrderID e"
    by blast
  with failed show ?thesis
    by simp
qed

theorem C10_failed_submit_keeps_state_witness:
  "ParseBool (TrimSpace (Getenv [envDryRun \<mapsto> '' false ''] envDryRun)) = Some False \<and>
   dryRun Map.empty \<and>
   (\<exists>err created.
      SubmitOrder [envDryRun \<mapsto> '' false ''] 7
          \<lparr>Symbol = ''A'', Side = ''BUY'', Type = ''LIMIT'', Quantity = 1, Price = 1,
           TimeInForce = ''GTC'', Tag = []\<rparr> (New [] [] []) = (Inl err, New [] [] []) \<and>
      fst (SubmitOrder Map.empty 8
          \<lparr>Symbol = ''B'', Side = ''SELL'', Type = ''LIMIT'', Quantity = 2, Price = 2,
           TimeInForce = ''GTC'', Tag = []\<rparr>
          (snd (SubmitOrder [envDryRun \<mapsto> '' false ''] 7
             \<lparr>Symbol = ''A'', Side = ''BUY'', Type = ''LIMIT'', Quantity = 1, Price = 1,
              TimeInForce = ''GTC'', Tag = []\<rparr> (New [] [] [])))) = Inr created \<and>
      OrderID created = 1)"
proof -
  have off: "ParseBool (TrimSpace (Getenv [envDryRun \<mapsto> '' false ''] envDryRun)) = Some False"
    by (simp add: Getenv_def trim_false ParseBool_def)
  have dry: "dryRun Map.empty"
    by (simp add: dryRun_unset)
  from C10_failed_submit_keeps_state [OF off dry, of 7 _ "New [] [] []" 8] off dry
  show ?thesis
    by (simp add: New_def) blast
qed

subsection \<open>The ledger\<close>


lemma keyed_empty: "keyed Map.empty"
  by (simp add: keyed_def)

lemma keyed_upd: "keyed m \<Longrightarrow> OrderID ord = k \<Longrightarrow> keyed (m(k \<mapsto> ord))"
  by (simp add: keyed_def)

lemma dom_cancelOne: "dom (cancelOne now r m) = dom m"
  by (auto simp: cancelOne_def split: option.splits)

lemma dom_cancelAll: "dom (cancelAll now rs m) = dom m"
  by (induction rs arbitrary: m) (simp_all add: dom_cancelOne)

lemma keyed_cancelOne: "keyed m \<Longrightarrow> keyed (cancelOne now r m)"
  by (auto simp: cancelOne_def keyed_def split: option.splits)

lemma keyed_cancelAll: "keyed m \<Longrightarrow> keyed (cancelAll now rs m)"
  by (induction rs arbitrary: m) (simp_all add: keyed_cancelOne)

lemma orders_QueryMarkets: "orders (snd (QueryMarkets dec env fs e)) = orders e"
  by (simp add: QueryMarkets_def Let_def split: sum.splits)

lemma nextOrderID_QueryMarkets: "nextOrderID (snd (QueryMarkets dec env fs e)) = nextOrderID e"
  by (simp add: QueryMarkets_def Let_def split: sum.splits)

lemma keyed_SubmitOrder: "keyed (orders e) \<Longrightarrow> keyed (orders (snd (SubmitOrder env now order e)))"
  by (simp add: SubmitOrder_def Let_def keyed_upd)

lemma keyed_perform: "keyed (orders e) \<Longrightarrow> keyed (orders (perform dec c e))"
  by (cases c) (simp_all add: orders_QueryMarkets keyed_SubmitOrder CancelOrders_def keyed_cancelAll)

lemma keyed_run: "keyed (orders e) \<Longrightarrow> keyed (orders (run dec cs e))"
  unfolding run_def by (induction cs arbitrary: e) (simp_all add: keyed_perform)

lemma keyed_New: "keyed (orders (run dec cs (New k s p)))"
  by (rule keyed_run) (simp add: New_def keyed_empty)

lemma openOrders_by_id:
  "keyed m \<Longrightarrow> distinct ks \<Longrightarrow>
     filter (\<lambda>ord. OrderID ord = k) (openOrders m symbol ks) =
       (if k \<in> set ks then
          (case m k of
             Some ord \<Rightarrow> if IsWorking ord \<and> (symbol = [] \<or> Symbol ord = symbol) then [ord] else []
           | None \<Rightarrow> [])
        else [])"
proof (induction ks)
  case Nil
  then show ?case by simp
next
  case (Cons a ks)
  then show ?case
    by (auto simp: keyed_def split: option.splits)
qed

lemma dom_perform: "dom (orders e) \<subseteq> dom (orders (perform dec c e))"
  by (cases c) (auto simp: orders_QueryMarkets SubmitOrder_def Let_def CancelOrders_def dom_cancelAll)

lemma dom_run: "dom (orders e) \<subseteq> dom (orders (run dec cs e))"
  unfolding run_def
proof (induction cs arbitrary: e)
  case Nil
  then show ?case by simp
next
  case (Cons c cs)
  from dom_perform [of e dec c] Cons.IH [of "perform dec c e"]
  show ?case by auto
qed

lemma cancelOne_keeps:
  "m k = Some ord \<Longrightarrow> canceled ord \<Longrightarrow> \<exists>ord'. cancelOne now r m k = Some ord' \<and> canceled ord'"
  by (auto simp: cancelOne_def canceled_def split: option.splits)

lemma cancelAll_keeps:
  "m k = Some ord \<Longrightarrow> canceled ord \<Longrightarrow> \<exists>ord'. cancelAll now rs m k = Some ord' \<and> canceled ord'"
proof (induction rs arbitrary: m ord)
  case Nil
  then show ?case by simp
next
  case (Cons r rs)
  from cancelOne_keeps [of m k ord now r] Cons.prems
  obtain ord' where "cancelOne now r m k = Some ord'" "canceled ord'" by blast
  with Cons.IH [of "cancelOne now r m" ord'] show ?case by simp
qed

lemma cancelOne_hits:
  "m (OrderID r) = Some ord \<Longrightarrow> \<exists>ord'. cancelOne now r m (OrderID r) = Some ord' \<and> canceled ord'"
  by (simp add: cancelOne_def canceled_def)

lemma cancelOne_other:
  "m k = Some ord \<Longrightarrow> \<exists>ord'. cancelOne now r m k = Some ord'"
  by (auto simp: cancelOne_def split: option.splits)

lemma cancelAll_hits:
  "r \<in> set rs \<Longrightarrow> m (OrderID r) = Some ord \<Longrightarrow>
     \<exists>ord'. cancelAll now rs m (OrderID r) = Some ord' \<and> canceled ord'"
proof (induction rs arbitrary: m ord)
  case Nil
  then show ?case by simp
next
  case (Cons a rs)
  show ?case
  proof (cases "OrderID a = OrderID r")
    case True
    with cancelOne_hits [of m a ord now] Cons.prems(2)
    obtain ord' where "cancelOne now a m (OrderID r) = Some ord'" "canceled ord'" by auto
    with cancelAll_keeps [of "cancelOne now a m" "OrderID r" ord' now rs] show ?thesis by simp
  next
    case False
    with Cons.prems(1) have "r \<in> set rs" by auto
    moreover from cancelOne_other [of m "OrderID r" ord now a] Cons.prems(2)
    obtain ord' where "cancelOne now a m (OrderID r) = Some ord'" by blast
    ultimately show ?thesis using Cons.IH [of "cancelOne now a m" ord'] by simp
  qed
qed

lemma cancelOne_unknown: "m (OrderID r) = None \<Longrightarrow> cancelOne now r m = m"
  by (simp add: cancelOne_def)

lemma cancelAll_filter:
  "cancelAll now rs m = cancelAll now (filter (\<lambda>r. OrderID r \<in> dom m) rs) m"
proof (induction rs arbitrary: m)
  case Nil
  then show ?case by simp
next
  case (Cons r rs)
  show ?case
  proof (cases "OrderID r \<in> dom m")
    case True
    with Cons.IH [of "cancelOne now r m"] show ?thesis
      by (simp add: dom_cancelOne)
  next
    case False
    then have "cancelOne now r m = m" by (auto intro: cancelOne_unknown)
    with False Cons.IH [of m] show ?thesis by simp
  qed
qed

lemma count_one:
  assumes "filter P xs = [x]"
  shows "count_list xs x = 1"
proof -
  from assms have "x \<in> set (filter P xs)" by simp
  then have px: "P x" by simp
  have "filter ((=) x) xs = filter ((=) x) (filter P xs)"
    using px by (auto simp: filter_filter intro: filter_cong)
  with assms have "filter ((=) x) xs = [x]" by simp
  then have "length (filter ((=) x) xs) = 1" by simp
  then show ?thesis by (simp add: count_list_eq_length_filter)
qed

text \<open>
  C1. A \<open>SubmitOrder\<close> call made with dry-run enabled, in any state that a process can
  be in, returns an order with status new, working flag true and executed quantity zero.
  Afterwards \<open>QueryOpenOrders\<close> with no symbol filter, whatever the order in which it
  visits the map, lists the returned order exactly once, and lists nothing else under
  its identifier.
\<close>

theorem C1_submit_creates_open_order:
  assumes "dryRun env"
    and "e = run dec cs (New k s p)"
    and "visits (orders (snd (SubmitOrder env now order e))) ks"
  shows "\<exists>created.
           fst (SubmitOrder env now order e) = Inr created \<and>
           Status created = OrderStatusNew \<and>
           IsWorking created \<and>
           ExecutedQuantity created = Zero \<and>
           filter (\<lambda>ord. OrderID ord = OrderID created)
             (QueryOpenOrders ks [] (snd (SubmitOrder env now order e))) = [created] \<and>
           count_list (QueryOpenOrders ks [] (snd (SubmitOrder env now order e))) created = 1"
proof -
  let ?e' = "snd (SubmitOrder env now order e)"
  from SubmitOrder_dry_created [OF assms(1), of now order e]
  obtain created where c: "fst (SubmitOrder env now order e) = Inr created"
    "OrderID created = nextOrderID e" "Status created = OrderStatusNew"
    "IsWorking created" "ExecutedQuantity created = Zero"
    by blast
  from SubmitOrder_dry_state [OF assms(1), of now order e] c(1)
  have stored: "orders ?e' (OrderID created) = Some created"
    by (simp add: c(2))
  from assms(2) have "keyed (orders e)"
    by (simp add: keyed_New)
  then have inv: "keyed (orders ?e')"
    by (rule keyed_SubmitOrder)
  from assms(3) have ks: "distinct ks" "OrderID created \<in> set ks"
    using stored by (auto simp: visits_def)
  from openOrders_by_id [OF inv ks(1), of "OrderID created" "[]"] ks(2) stored c(4)
  have one: "filter (\<lambda>ord. OrderID ord = OrderID created) (QueryOpenOrders ks [] ?e') = [created]"
    by (simp add: QueryOpenOrders_def)
  from count_one [OF one] have "count_list (QueryOpenOrders ks [] ?e') created = 1" .
  with c one show ?thesis by blast
qed

lemma run_Nil: "run dec [] e = e"
  by (simp add: run_def)

lemma run_Cons: "run dec (c # cs) e = run dec cs (perform dec c e)"
  by (simp add: run_def)

theorem C1_submit_creates_open_order_witness:
  "dryRun Map.empty \<and>
   visits (orders (snd (SubmitOrder Map.empty 8 (exampleOrder ''B'')
       (run unmarshalMarket [CallSubmitOrder Map.empty 7 (exampleOrder ''A'')] (New [] [] []))))) [2, 1] \<and>
   (\<exists>created.
      fst (SubmitOrder Map.empty 8 (exampleOrder ''B'')
        (run unmarshalMarket [CallSubmitOrder Map.empty 7 (exampleOrder ''A'')] (New [] [] []))) = Inr created \<and>
      OrderID created = 2 \<and>
      Status created = OrderStatusNew \<and> IsWorking created \<and> ExecutedQuantity created = Zero \<and>
      count_list (QueryOpenOrders [2, 1] []
        (snd (SubmitOrder Map.empty 8 (exampleOrder ''B'')
          (run unmarshalMarket [CallSubmitOrder Map.empty 7 (exampleOrder ''A'')] (New [] [] []))))) created = 1)"
proof -
  have dry: "dryRun Map.empty"
    by (simp add: dryRun_unset)
  have st: "run unmarshalMarket [CallSubmitOrder Map.empty 7 (exampleOrder ''A'')] (New [] [] []) =
      run unmarshalMarket [CallSubmitOrder Map.empty 7 (exampleOrder ''A'')] (New [] [] [])" ..
  have vis: "visits (orders (snd (SubmitOrder Map.empty 8 (exampleOrder ''B'')
       (run unmarshalMarket [CallSubmitOrder Map.empty 7 (exampleOrder ''A'')] (New [] [] []))))) [2, 1]"
    by (auto simp: visits_def run_Cons run_Nil SubmitOrder_def Let_def dry New_def)
  from C1_submit_creates_open_order [OF dry st vis] dry vis
  show ?thesis
    by (auto simp: run_Cons run_Nil SubmitOrder_def Let_def New_def)
qed

lemma SubmitOrder_stores:
  "SubmitOrder env now order e = (Inr created, e') \<Longrightarrow> orders e' (OrderID created) = Some created"
  by (auto simp: SubmitOrder_def Let_def split: if_splits)

text \<open>
  C3. Take an identifier that \<open>SubmitOrder\<close> returned at some point of a process, any
  calls after it, and then a \<open>CancelOrders\<close> call whose references include that
  identifier. The call succeeds. Afterwards the order stored under the identifier has
  status canceled and working flag false, and \<open>QueryOpenOrders\<close>, with any symbol filter
  or none and whatever the order of its visit, lists no order with that identifier (so
  it does not list the order that was returned).
\<close>

theorem C3_cancel_closes_order:
  assumes "e0 = run dec cs (New k s p)"
    and "SubmitOrder env now order e0 = (Inr created, e1)"
    and "e2 = run dec cs' e1"
    and "r \<in> set refs" and "OrderID r = OrderID created"
    and "e3 = snd (CancelOrders now' refs e2)"
    and "visits (orders e3) ks"
  shows "fst (CancelOrders now' refs e2) = None \<and>
         (\<exists>stored. orders e3 (OrderID created) = Some stored \<and>
            Status stored = OrderStatusCanceled \<and> \<not> IsWorking stored) \<and>
         filter (\<lambda>ord. OrderID ord = OrderID created) (QueryOpenOrders ks symbol e3) = [] \<and>
         created \<notin> set (QueryOpenOrders ks symbol e3)"
proof -
  from SubmitOrder_stores [OF assms(2)] have "OrderID created \<in> dom (orders e1)"
    by auto
  with dom_run [of e1 dec cs'] assms(3) have "OrderID created \<in> dom (orders e2)"
    by auto
  then obtain ord where "orders e2 (OrderID r) = Some ord"
    using assms(5) by auto
  with cancelAll_hits [of r refs "orders e2" ord now'] assms(4)
  obtain stored where stored: "cancelAll now' refs (orders e2) (OrderID r) = Some stored"
    "canceled stored"
    by blast
  with assms(5,6) have at: "orders e3 (OrderID created) = Some stored"
    by (simp add: CancelOrders_def)
  have "e1 = perform dec (CallSubmitOrder env now order) e0"
    using assms(2) by simp
  with assms(1,3) have "e2 = run dec (cs @ CallSubmitOrder env now order # cs') (New k s p)"
    by (simp add: run_def)
  then have "keyed (orders e2)"
    by (simp add: keyed_New)
  then have inv: "keyed (orders e3)"
    using assms(6) by (simp add: CancelOrders_def keyed_cancelAll)
  from assms(7) have "distinct ks"
    by (simp add: visits_def)
  from openOrders_by_id [OF inv this, of "OrderID created" symbol] at stored(2)
  have none: "filter (\<lambda>ord. OrderID ord = OrderID created) (QueryOpenOrders ks symbol e3) = []"
    by (simp add: QueryOpenOrders_def canceled_def)
  then have "created \<notin> set (QueryOpenOrders ks symbol e3)"
    by (auto simp: filter_empty_conv)
  with at stored(2) none show ?thesis
    by (simp add: CancelOrders_def canceled_def)
qed

theorem C3_cancel_closes_order_witness:
  "(\<exists>created e1.
      SubmitOrder Map.empty 8 (exampleOrder ''B'')
        (run unmarshalMarket [CallSubmitOrder Map.empty 7 (exampleOrder ''A'')] (New [] [] [])) =
        (Inr created, e1) \<and>
      OrderID created = 2 \<and>
      visits (orders (snd (CancelOrders 10 [created]
         (run unmarshalMarket [CallSubmitOrder Map.empty 9 (exampleOrder ''B'')] e1)))) [3, 1, 2] \<and>
      (\<exists>stored. orders (snd (CancelOrders 10 [created]
            (run unmarshalMarket [CallSubmitOrder Map.empty 9 (exampleOrder ''B'')] e1))) 2 = Some stored \<and>
         Status stored = OrderStatusCanceled \<and> \<not> IsWorking stored) \<and>
      created \<notin> set (QueryOpenOrders [3, 1, 2] [] (snd (CancelOrders 10 [created]
         (run unmarshalMarket [CallSubmitOrder Map.empty 9 (exampleOrder ''B'')] e1)))) \<and>
      created \<notin> set (QueryOpenOrders [3, 1, 2] ''B'' (snd (CancelOrders 10 [created]
         (run unmarshalMarket [CallSubmitOrder Map.empty 9 (exampleOrder ''B'')] e1)))))"
proof -
  define e0 where "e0 = run unmarshalMarket [CallSubmitOrder Map.empty 7 (exampleOrder ''A'')] (New [] [] [])"
  obtain created e1 where sub: "SubmitOrder Map.empty 8 (exampleOrder ''B'') e0 = (Inr created, e1)"
    by (simp add: SubmitOrder_def Let_def dryRun_unset)
  define e2 where "e2 = run unmarshalMarket [CallSubmitOrder Map.empty 9 (exampleOrder ''B'')] e1"
  define e3 where "e3 = snd (CancelOrders 10 [created] e2)"
  have mem: "created \<in> set [created]" by simp
  have vis: "visits (orders e3) [3, 1, 2]"
    using sub
    by (auto simp: visits_def e3_def e2_def e0_def run_Cons run_Nil SubmitOrder_def Let_def
        dryRun_unset New_def CancelOrders_def cancelOne_def split: if_splits)
  have oid: "OrderID created = 2"
    using sub
    by (auto simp: e0_def run_Cons run_Nil SubmitOrder_def Let_def dryRun_unset New_def)
  note c3 = C3_cancel_closes_order [OF e0_def sub e2_def mem refl e3_def vis]
  from c3 [of "[]"] c3 [of "''B''"] sub oid vis
  show ?thesis
    unfolding e0_def e2_def e3_def by auto
qed

text \<open>The identifiers that one call returns from \<open>SubmitOrder\<close>.\<close>

lemma issued_Cons_dom:
  "dom (orders (perform dec c e)) = dom (orders e) \<union> set (issued dec [c] e)"
  by (cases c)
    (auto simp: orders_QueryMarkets SubmitOrder_def Let_def CancelOrders_def dom_cancelAll)

lemma issued_step: "issued dec (c # cs) e = issued dec [c] e @ issued dec cs (perform dec c e)"
  by simp

lemma dom_issued: "dom (orders (run dec cs e)) = dom (orders e) \<union> set (issued dec cs e)"
proof (induction cs arbitrary: e)
  case Nil
  then show ?case by (simp add: run_Nil)
next
  case (Cons c cs)
  have "dom (orders (run dec (c # cs) e)) =
      dom (orders (perform dec c e)) \<union> set (issued dec cs (perform dec c e))"
    using Cons.IH [of "perform dec c e"] by (simp add: run_Cons)
  also have "\<dots> = dom (orders e) \<union> set (issued dec [c] e) \<union> set (issued dec cs (perform dec c e))"
    by (simp only: issued_Cons_dom)
  also have "\<dots> = dom (orders e) \<union> set (issued dec (c # cs) e)"
    by (subst (2) issued_step) (simp only: set_append Un_assoc)
  finally show ?case .
qed

lemma dom_issued_New: "dom (orders (run dec cs (New k s p))) = set (issued dec cs (New k s p))"
  by (simp add: dom_issued) (simp add: New_def)

lemma cancelAll_unknown:
  "\<forall>r \<in> set rs. m (OrderID r) = None \<Longrightarrow> cancelAll now rs m = m"
  by (induction rs) (simp_all add: cancelOne_unknown)

text \<open>
  C7. In every state of a process and for every sequence of order references,
  \<open>CancelOrders\<close> returns success. References whose identifiers were never issued are
  ignored: the call leaves the state that the call without them leaves, and when none of
  the identifiers was issued the state (counter, stored orders and all) is unchanged.
\<close>

theorem C7_cancel_unknown_is_ignored:
  assumes "e = run dec cs (New k s p)"
  shows "fst (CancelOrders now refs e) = None \<and>
         snd (CancelOrders now refs e) =
           snd (CancelOrders now (filter (\<lambda>r. OrderID r \<in> set (issued dec cs (New k s p))) refs) e) \<and>
         ((\<forall>r \<in> set refs. OrderID r \<notin> set (issued dec cs (New k s p))) \<longrightarrow>
            CancelOrders now refs e = (None, e))"
proof (intro conjI impI)
  show "fst (CancelOrders now refs e) = None"
    by (simp add: CancelOrders_def)
  from assms have known: "dom (orders e) = set (issued dec cs (New k s p))"
    by (simp add: dom_issued_New)
  from cancelAll_filter [of now refs "orders e"]
  show "snd (CancelOrders now refs e) =
      snd (CancelOrders now (filter (\<lambda>r. OrderID r \<in> set (issued dec cs (New k s p))) refs) e)"
    by (simp add: CancelOrders_def known)
  assume "\<forall>r \<in> set refs. OrderID r \<notin> set (issued dec cs (New k s p))"
  with known have "\<forall>r \<in> set refs. orders e (OrderID r) = None"
    by (metis domIff)
  then have "cancelAll now refs (orders e) = orders e"
    by (rule cancelAll_unknown)
  then show "CancelOrders now refs e = (None, e)"
    by (simp add: CancelOrders_def)
qed

lemma issued_example:
  "issued unmarshalMarket [CallSubmitOrder Map.empty 7 (exampleOrder ''A'')] (New [] [] []) = [1]"
  by (simp add: SubmitOrder_def Let_def dryRun_unset New_def)

theorem C7_cancel_unknown_is_ignored_witness:
  "5 \<notin> set (issued unmarshalMarket
      [CallSubmitOrder Map.empty 7 (exampleOrder ''A'')] (New [] [] [])) \<and>
   0 \<notin> set (issued unmarshalMarket
      [CallSubmitOrder Map.empty 7 (exampleOrder ''A'')] (New [] [] [])) \<and>
   CancelOrders 9 [exampleRef 5, exampleRef 0]
       (run unmarshalMarket [CallSubmitOrder Map.empty 7 (exampleOrder ''A'')] (New [] [] [])) =
     (None, run unmarshalMarket [CallSubmitOrder Map.empty 7 (exampleOrder ''A'')] (New [] [] [])) \<and>
   snd (CancelOrders 9 [exampleRef 5, exampleRef 1, exampleRef 0]
       (run unmarshalMarket [CallSubmitOrder Map.empty 7 (exampleOrder ''A'')] (New [] [] []))) =
     snd (CancelOrders 9 [exampleRef 1]
       (run unmarshalMarket [CallSubmitOrder Map.empty 7 (exampleOrder ''A'')] (New [] [] [])))"
proof -
  have oid: "OrderID (exampleRef oid) = oid" for oid
    by (simp add: exampleRef_def)
  have unknown: "\<forall>r \<in> set [exampleRef 5, exampleRef 0].
      OrderID r \<notin> set (issued unmarshalMarket
        [CallSubmitOrder Map.empty 7 (exampleOrder ''A'')] (New [] [] []))"
    unfolding issued_example by (simp add: oid)
  note c7 = C7_cancel_unknown_is_ignored [OF refl, of 9 _ unmarshalMarket
      "[CallSubmitOrder Map.empty 7 (exampleOrder ''A'')]" "[]" "[]" "[]"]
  from c7 [of "[exampleRef 5, exampleRef 0]"] c7 [of "[exampleRef 5, exampleRef 1, exampleRef 0]"]
    unknown
  show ?thesis
    unfolding issued_example by (simp add: oid)
qed

lemma issued_one:
  "(issued dec [c] e = [] \<and> nextOrderID (perform dec c e) = nextOrderID e) \<or>
   (issued dec [c] e = [nextOrderID e] \<and> nextOrderID (perform dec c e) = nextOrderID e + 1)"
  by (cases c)
    (auto simp: nextOrderID_QueryMarkets SubmitOrder_def Let_def CancelOrders_def)

lemma upt_shift: "map (\<lambda>i. f (Suc i)) [0..<n] = map f [1..<Suc n]"
proof -
  have "map (\<lambda>i. f (Suc i)) [0..<n] = map f (map Suc [0..<n])"
    by (simp add: comp_def)
  then show ?thesis
    by (simp only: map_Suc_upt) simp
qed

lemma issued_counts:
  "issued dec cs e =
     map (\<lambda>i. nextOrderID e + of_nat i) [0..<length (issued dec cs e)] \<and>
   nextOrderID (run dec cs e) = nextOrderID e + of_nat (length (issued dec cs e))"
proof (induction cs arbitrary: e)
  case Nil
  then show ?case by (simp add: run_Nil)
next
  case (Cons c cs)
  let ?e' = "perform dec c e"
  let ?n = "length (issued dec cs ?e')"
  note IH = Cons.IH [of ?e']
  from issued_one [of dec c e] show ?case
  proof
    assume skip: "issued dec [c] e = [] \<and> nextOrderID ?e' = nextOrderID e"
    then have "issued dec (c # cs) e = issued dec cs ?e'"
      by (subst issued_step) simp
    with IH skip show ?thesis
      by (simp add: run_Cons)
  next
    assume hit: "issued dec [c] e = [nextOrderID e] \<and> nextOrderID ?e' = nextOrderID e + 1"
    then have shape: "issued dec (c # cs) e = nextOrderID e # issued dec cs ?e'"
      by (subst issued_step) simp
    have "map (\<lambda>i. nextOrderID e + of_nat i) [0..<Suc ?n] =
        nextOrderID e # map (\<lambda>i. nextOrderID e + of_nat (Suc i)) [0..<?n]"
      by (simp only: map_upt_Suc) simp
    also have "\<dots> = nextOrderID e # map (\<lambda>i. nextOrderID ?e' + of_nat i) [0..<?n]"
      using hit by (simp add: ac_simps)
    also have "\<dots> = issued dec (c # cs) e"
      using IH shape by simp
    finally have "issued dec (c # cs) e =
        map (\<lambda>i. nextOrderID e + of_nat i) [0..<length (issued dec (c # cs) e)]"
      using shape by simp
    moreover have "nextOrderID (run dec (c # cs) e) =
        nextOrderID e + of_nat (length (issued dec (c # cs) e))"
      using IH hit shape by (simp add: run_Cons ac_simps)
    ultimately show ?thesis by blast
  qed
qed

lemma issued_New:
  "issued dec cs (New k s p) = map of_nat [1..<Suc (length (issued dec cs (New k s p)))]"
proof -
  have "nextOrderID (New k s p) = 1"
    by (simp add: New_def)
  with issued_counts [of dec cs "New k s p"]
  have "issued dec cs (New k s p) =
      map (\<lambda>i. of_nat (Suc i)) [0..<length (issued dec cs (New k s p))]"
    by simp
  then show ?thesis
    by (simp only: upt_shift [of of_nat])
qed

lemma word64_of_nat_less:
  "i < j \<Longrightarrow> j < 2 ^ 64 \<Longrightarrow> (of_nat i :: 64 word) < of_nat j"
  by (simp add: word_less_nat_alt unat_of_nat)

lemma ids_sorted:
  assumes "n < 2 ^ 64"
  shows "sorted_wrt (<) (map of_nat [1..<Suc n] :: 64 word list)"
proof -
  have "sorted_wrt (<) [1..<Suc n]"
    by (rule sorted_wrt_upt)
  then have "sorted_wrt (\<lambda>i j. (of_nat i :: 64 word) < of_nat j) [1..<Suc n]"
  proof (rule sorted_wrt_mono_rel [rotated])
    fix i j
    assume "i < j" and "j \<in> set [1..<Suc n]"
    with assms have "j < 2 ^ 64" by auto
    with \<open>i < j\<close> show "(of_nat i :: 64 word) < of_nat j"
      by (rule word64_of_nat_less)
  qed
  then show ?thesis
    by (simp only: sorted_wrt_map)
qed

lemma ids_hd: "0 < n \<Longrightarrow> hd (map of_nat [1..<Suc n] :: 64 word list) = 1"
  by (simp add: upt_conv_Cons del: upt_Suc)

lemma sorted_wrt_less_distinct: "sorted_wrt (<) (xs :: 64 word list) \<Longrightarrow> distinct xs"
  by (induction xs) auto

text \<open>
  The ledger keeps every order that was issued: \<open>SubmitOrder\<close> stores it and no method
  deletes from \<open>orders\<close>. So a process that has issued fewer than \<open>2 ^ 64\<close> identifiers
  holds one order for each of them, and a process that has issued \<open>2 ^ 64\<close> or more, as
  the counter needs to wrap around, holds an order under every one of the \<open>2 ^ 64\<close>
  values of a \<open>uint64\<close>.
\<close>

lemma issued_below_wrap:
  assumes "length (issued dec cs (New k s p)) < 2 ^ 64"
  shows "sorted_wrt (<) (issued dec cs (New k s p)) \<and> distinct (issued dec cs (New k s p))"
proof -
  have shape: "issued dec cs (New k s p) =
      map of_nat [1..<Suc (length (issued dec cs (New k s p)))]"
    by (rule issued_New)
  from ids_sorted [OF assms] have "sorted_wrt (<) (issued dec cs (New k s p))"
    by (subst shape)
  then show ?thesis
    by (simp add: sorted_wrt_less_distinct)
qed

lemma ledger_size:
  assumes "length (issued dec cs (New k s p)) < 2 ^ 64"
  shows "card (dom (orders (run dec cs (New k s p)))) = length (issued dec cs (New k s p))"
  using issued_below_wrap [OF assms] by (simp add: dom_issued_New distinct_card)

lemma all_words_issued:
  assumes "2 ^ 64 \<le> n"
  shows "set (map of_nat [1..<Suc n] :: 64 word list) = UNIV"
proof -
  have "w \<in> set (map of_nat [1..<Suc n] :: 64 word list)" for w :: "64 word"
  proof (cases "w = 0")
    case True
    have "(of_nat (2 ^ 64) :: 64 word) = 0"
      by simp
    moreover from assms have "(2 ^ 64 :: nat) \<in> set [1..<Suc n]"
      by auto
    ultimately show ?thesis
      using True by (metis image_eqI set_map)
  next
    case False
    then have "0 < unat w"
      by (simp add: unat_gt_0)
    moreover have "unat w < 2 ^ 64"
      using unsigned_less [of w] by simp
    ultimately have "unat w \<in> set [1..<Suc n]"
      using assms by auto
    moreover have "of_nat (unat w) = w"
      by simp
    ultimately show ?thesis
      by (metis image_eqI set_map)
  qed
  then show ?thesis
    by blast
qed

lemma full_ledger:
  assumes "2 ^ 64 \<le> length (issued dec cs (New k s p))"
  shows "card (dom (orders (run dec cs (New k s p)))) = 2 ^ 64"
proof -
  have "dom (orders (run dec cs (New k s p))) = set (issued dec cs (New k s p))"
    by (rule dom_issued_New)
  also have "\<dots> = set (map of_nat [1..<Suc (length (issued dec cs (New k s p)))] :: 64 word list)"
    using issued_New [of dec cs k s p] by simp
  also have "\<dots> = UNIV"
    by (rule all_words_issued [OF assms])
  finally show ?thesis
    by (simp add: card_word)
qed

text \<open>
  C2. In every process, whatever other calls come between its successful \<open>SubmitOrder\<close>
  calls, the identifiers that these return are 1, 2, 3, ... in this order: strictly
  increasing, never reused, the first one 1; and the ledger holds one order for each.
  The hypothesis is that the ledger holds fewer than \<open>2 ^ 64\<close> orders, as every ledger
  in the memory of a machine does; by \<open>full_ledger\<close> it leaves out only the processes
  that have filled the ledger with an order under every value of a \<open>uint64\<close>.
\<close>

theorem C2_identifiers_increase:
  assumes "card (dom (orders (run dec cs (New k s p)))) < 2 ^ 64"
  shows "issued dec cs (New k s p) = map of_nat [1..<Suc (length (issued dec cs (New k s p)))] \<and>
         sorted_wrt (<) (issued dec cs (New k s p)) \<and>
         distinct (issued dec cs (New k s p)) \<and>
         (issued dec cs (New k s p) \<noteq> [] \<longrightarrow> hd (issued dec cs (New k s p)) = 1) \<and>
         length (issued dec cs (New k s p)) = card (dom (orders (run dec cs (New k s p))))"
proof -
  let ?ids = "issued dec cs (New k s p)"
  have below: "length ?ids < 2 ^ 64"
  proof (rule ccontr)
    assume "\<not> length ?ids < 2 ^ 64"
    then have "2 ^ 64 \<le> length ?ids"
      by simp
    from full_ledger [OF this] assms show False
      by simp
  qed
  have shape: "?ids = map of_nat [1..<Suc (length ?ids)]"
    by (rule issued_New)
  have "hd ?ids = 1" if "?ids \<noteq> []"
  proof -
    from that have "0 < length ?ids" by simp
    from ids_hd [OF this] show ?thesis
      by (subst shape)
  qed
  with shape issued_below_wrap [OF below] ledger_size [OF below] show ?thesis
    by simp
qed

lemma dryRun_false_example: "\<not> dryRun [envDryRun \<mapsto> '' false '']"
  by (simp add: dryRun_iff Getenv_def trim_false ParseBool_def)

theorem C2_identifiers_increase_witness:
  "card (dom (orders (run unmarshalMarket
     [CallSubmitOrder Map.empty 7 (exampleOrder ''A''),
      CallSubmitOrder [envDryRun \<mapsto> '' false ''] 8 (exampleOrder ''B''),
      CallCancelOrders 9 [exampleRef 1],
      CallSubmitOrder Map.empty 10 (exampleOrder ''C'')] (New [] [] [])))) = 2 \<and>
   issued unmarshalMarket
     [CallSubmitOrder Map.empty 7 (exampleOrder ''A''),
      CallSubmitOrder [envDryRun \<mapsto> '' false ''] 8 (exampleOrder ''B''),
      CallCancelOrders 9 [exampleRef 1],
      CallSubmitOrder Map.empty 10 (exampleOrder ''C'')] (New [] [] []) = [1, 2] \<and>
   sorted_wrt (<) [1, 2 :: 64 word] \<and> distinct [1, 2 :: 64 word] \<and> hd [1, 2 :: 64 word] = 1"
proof -
  let ?cs = "[CallSubmitOrder Map.empty 7 (exampleOrder ''A''),
      CallSubmitOrder [envDryRun \<mapsto> '' false ''] 8 (exampleOrder ''B''),
      CallCancelOrders 9 [exampleRef 1],
      CallSubmitOrder Map.empty 10 (exampleOrder ''C'')]"
  have ids: "issued unmarshalMarket ?cs (New [] [] []) = [1, 2]"
    by (simp add: SubmitOrder_def Let_def dryRun_unset dryRun_false_example New_def
        CancelOrders_def)
  have "dom (orders (run unmarshalMarket ?cs (New [] [] []))) = {1, 2}"
    by (simp only: dom_issued_New ids) simp
  then have size: "card (dom (orders (run unmarshalMarket ?cs (New [] [] [])))) = 2"
    by simp
  then have "card (dom (orders (run unmarshalMarket ?cs (New [] [] [])))) < 2 ^ 64"
    by simp
  from C2_identifiers_increase [OF this] ids size show ?thesis
    by simp
qed

subsection \<open>The catalog\<close>

lemma env_keys_differ: "envMarketsFile \<noteq> envMarketsJSON"
  by (simp add: envMarketsFile_def envMarketsJSON_def)

lemma names_envMarketsFile:
  "sublist envMarketsFile (''polymarket: read '' @ envMarketsFile @ '' failed: '')"
  by (rule sublist_appendI)

lemma Getenv_other: "k \<noteq> k' \<Longrightarrow> Getenv (env(k' := v)) k = Getenv env k"
  by (simp add: Getenv_def)

lemma parse_mappingExample:
  "parseJSON mappingExample =
     Some (JObject [(''Y'', JObject [(''symbol'', JString []), (''baseCurrency'', JString ''Y'')])])"
  by code_simp

lemma parse_arrayExample:
  "parseJSON arrayExample =
     Some (JArray [JObject [(''symbol'', JString ''X''), (''baseCurrency'', JString ''X''),
       (''quoteCurrency'', JString ''USDC'')]])"
  by code_simp

lemma parse_blankFirst:
  "parseJSON blankFirst =
     Some (JArray [JObject [(''symbol'', JString []), (''baseCurrency'', JString ''Y'')]])"
  by code_simp

lemma parse_blankSecond:
  "parseJSON blankSecond =
     Some (JArray [JObject [(''symbol'', JString ''X'')],
       JObject [(''symbol'', JString []), (''baseCurrency'', JString ''B'')],
       JObject [(''symbol'', JString [])]])"
  by code_simp

lemma unmarshal_Y:
  "unmarshalMarket (JObject [(''symbol'', JString []), (''baseCurrency'', JString ''Y'')]) =
     Done None (zeroMarket\<lparr>BaseCurrency := ''Y''\<rparr>)"
  by code_simp

lemma unmarshal_X:
  "unmarshalMarket (JObject [(''symbol'', JString ''X''), (''baseCurrency'', JString ''X''),
       (''quoteCurrency'', JString ''USDC'')]) =
     Done None (zeroMarket\<lparr>Market.Symbol := ''X'', BaseCurrency := ''X'', QuoteCurrency := ''USDC''\<rparr>)"
  by code_simp

lemma unmarshal_B:
  "unmarshalMarket (JObject [(''symbol'', JString []), (''baseCurrency'', JString ''B'')]) =
     Done None (zeroMarket\<lparr>BaseCurrency := ''B''\<rparr>)"
  by code_simp

lemma unmarshal_onlyX:
  "unmarshalMarket (JObject [(''symbol'', JString ''X'')]) =
     Done None (zeroMarket\<lparr>Market.Symbol := ''X''\<rparr>)"
  by code_simp

lemma unmarshal_blank:
  "unmarshalMarket (JObject [(''symbol'', JString [])]) = Done None zeroMarket"
  by code_simp

lemma decode_mappingExample:
  "decodeMarketsJSON unmarshalMarket mappingExample = Inr [''Y'' \<mapsto> zeroMarket\<lparr>BaseCurrency := ''Y''\<rparr>]"
  by (simp add: decodeMarketsJSON_def UnmarshalMarketMap_def parse_mappingExample unmarshal_Y
      firstError_def)

lemma decode_blankFirst:
  "decodeMarketsJSON unmarshalMarket blankFirst =
     Inl (DecodeError ''polymarket: market symbol is empty in json'' None)"
  by (simp add: decodeMarketsJSON_def UnmarshalMarketMap_def UnmarshalMarkets_def
      parse_blankFirst unmarshal_Y firstError_def kindOf_def zeroMarket_def)

lemma decode_blankSecond:
  "decodeMarketsJSON unmarshalMarket blankSecond =
     Inl (DecodeError ''polymarket: market symbol is empty in json'' None)"
  by (simp add: decodeMarketsJSON_def UnmarshalMarketMap_def UnmarshalMarkets_def
      parse_blankSecond unmarshal_B unmarshal_onlyX unmarshal_blank firstError_def kindOf_def
      zeroMarket_def)

lemma trim_mappingExample: "TrimSpace mappingExample = mappingExample"
  by (simp add: TrimSpace_def TrimLeftSpace_def TrimRightSpace_def leadingSpace_def
      spaceRunes_def mappingExample_def)

lemma mappingExample_nonempty: "mappingExample \<noteq> []"
  by (simp add: mappingExample_def)

lemma trim_path: "TrimSpace '' markets.json '' = ''markets.json''"
  by (simp add: TrimSpace_def TrimLeftSpace_def TrimRightSpace_def leadingSpace_def
      spaceRunes_def)

lemma load_unset: "loadMarketsFromEnv dec Map.empty fs = Inr Map.empty"
  by (simp add: loadMarketsFromEnv_def Getenv_def TrimSpace_empty)

lemma load_inline_mapping:
  "loadMarketsFromEnv unmarshalMarket [envMarketsJSON \<mapsto> mappingExample] fs =
     Inr [''Y'' \<mapsto> zeroMarket\<lparr>BaseCurrency := ''Y''\<rparr>]"
  by (simp add: loadMarketsFromEnv_def Getenv_def env_keys_differ TrimSpace_empty
      trim_mappingExample decode_mappingExample mappingExample_nonempty)

lemma stamp_Y:
  "stamp ''Y'' (zeroMarket\<lparr>BaseCurrency := ''Y''\<rparr>) =
     zeroMarket\<lparr>Market.Exchange := ExchangePolymarket, Market.Symbol := ''Y'', BaseCurrency := ''Y''\<rparr>"
  by (simp add: stamp_def zeroMarket_def)

lemma query_inline_mapping:
  "fst (QueryMarkets unmarshalMarket [envMarketsJSON \<mapsto> mappingExample] fs (New k s p)) =
     Inr [''Y'' \<mapsto>
       zeroMarket\<lparr>Market.Exchange := ExchangePolymarket, Market.Symbol := ''Y'', BaseCurrency := ''Y''\<rparr>]"
proof -
  have "(\<lambda>symbol. map_option (stamp symbol) ([''Y'' \<mapsto> zeroMarket\<lparr>BaseCurrency := ''Y''\<rparr>] symbol)) =
      [''Y'' \<mapsto> stamp ''Y'' (zeroMarket\<lparr>BaseCurrency := ''Y''\<rparr>)]"
    by (rule ext) simp
  then show ?thesis
    by (simp add: QueryMarkets_def Let_def New_def load_inline_mapping stamp_Y)
qed

text \<open>
  C9. A configuration key counts as set when its value, white space trimmed, is not
  empty (\<open>os.Getenv\<close> does not tell an unset key from an empty value, and the loader
  trims). When the file-path key is set, the loader reads that file and decodes it, and
  the inline JSON key has no influence, whatever it holds; when the file cannot be read,
  the result is an \<open>IOError\<close> that wraps the error of the read and whose message names
  the key. When neither key is set the loader returns the empty result.
\<close>

theorem C9_source_precedence:
  "(TrimSpace (Getenv env envMarketsFile) \<noteq> [] \<longrightarrow>
      loadMarketsFromEnv dec env fs =
        (case ReadFile fs (TrimSpace (Getenv env envMarketsFile)) of
           Inl err \<Rightarrow> Inl (IOError (''polymarket: read '' @ envMarketsFile @ '' failed: '') err)
         | Inr b \<Rightarrow> decodeMarketsJSON dec b) \<and>
      loadMarketsFromEnv dec (env(envMarketsJSON := inline)) fs = loadMarketsFromEnv dec env fs \<and>
      (\<forall>err. ReadFile fs (TrimSpace (Getenv env envMarketsFile)) = Inl err \<longrightarrow>
         (\<exists>msg. loadMarketsFromEnv dec env fs = Inl (IOError msg err) \<and>
            sublist envMarketsFile msg))) \<and>
   (TrimSpace (Getenv env envMarketsFile) = [] \<and> TrimSpace (Getenv env envMarketsJSON) = [] \<longrightarrow>
      loadMarketsFromEnv dec env fs = Inr Map.empty)"
proof (intro conjI impI allI)
  assume given: "TrimSpace (Getenv env envMarketsFile) \<noteq> []"
  then show fromFile: "loadMarketsFromEnv dec env fs =
      (case ReadFile fs (TrimSpace (Getenv env envMarketsFile)) of
         Inl err \<Rightarrow> Inl (IOError (''polymarket: read '' @ envMarketsFile @ '' failed: '') err)
       | Inr b \<Rightarrow> decodeMarketsJSON dec b)"
    by (simp add: loadMarketsFromEnv_def Let_def)
  from given show "loadMarketsFromEnv dec (env(envMarketsJSON := inline)) fs =
      loadMarketsFromEnv dec env fs"
    by (simp add: loadMarketsFromEnv_def Let_def Getenv_other [OF env_keys_differ])
  fix err
  assume "ReadFile fs (TrimSpace (Getenv env envMarketsFile)) = Inl err"
  with fromFile names_envMarketsFile
  show "\<exists>msg. loadMarketsFromEnv dec env fs = Inl (IOError msg err) \<and> sublist envMarketsFile msg"
    by simp
next
  assume "TrimSpace (Getenv env envMarketsFile) = [] \<and> TrimSpace (Getenv env envMarketsJSON) = []"
  then show "loadMarketsFromEnv dec env fs = Inr Map.empty"
    by (simp add: loadMarketsFromEnv_def Let_def)
qed

theorem C9_source_precedence_witness:
  "TrimSpace (Getenv [envMarketsFile \<mapsto> '' markets.json '',
       envMarketsJSON \<mapsto> ''[{\"symbol\":\"X\",\"baseCurrency\":\"X\",\"quoteCurrency\":\"USDC\"}]'']
     envMarketsFile) = ''markets.json'' \<and>
   loadMarketsFromEnv unmarshalMarket
       [envMarketsFile \<mapsto> '' markets.json '',
        envMarketsJSON \<mapsto> ''[{\"symbol\":\"X\",\"baseCurrency\":\"X\",\"quoteCurrency\":\"USDC\"}]'']
       oneFile =
     Inr [''Y'' \<mapsto> zeroMarket\<lparr>BaseCurrency := ''Y''\<rparr>] \<and>
   loadMarketsFromEnv unmarshalMarket
       [envMarketsFile \<mapsto> '' markets.json '',
        envMarketsJSON \<mapsto> ''[{\"symbol\":\"X\",\"baseCurrency\":\"X\",\"quoteCurrency\":\"USDC\"}]'']
       noFiles =
     Inl (IOError ''polymarket: read POLYMARKET_MARKETS_FILE failed: ''
       (PathError ''open'' ''markets.json'' ''no such file or directory'')) \<and>
   loadMarketsFromEnv unmarshalMarket Map.empty noFiles = Inr Map.empty"
proof -
  let ?env = "[envMarketsFile \<mapsto> '' markets.json '',
       envMarketsJSON \<mapsto> ''[{\"symbol\":\"X\",\"baseCurrency\":\"X\",\"quoteCurrency\":\"USDC\"}]'']"
  have path: "TrimSpace (Getenv ?env envMarketsFile) = ''markets.json''"
    by (simp add: Getenv_def env_keys_differ trim_path)
  have unset: "TrimSpace (Getenv Map.empty envMarketsFile) = [] \<and>
      TrimSpace (Getenv Map.empty envMarketsJSON) = []"
    by (simp add: Getenv_def TrimSpace_empty)
  have present: "ReadFile oneFile ''markets.json'' = Inr mappingExample"
    by (simp add: ReadFile_def oneFile_def mappingExample_def)
  have absent: "ReadFile noFiles ''markets.json'' =
      Inl (PathError ''open'' ''markets.json'' ''no such file or directory'')"
    by (simp add: ReadFile_def noFiles_def)
  note c9 = C9_source_precedence [of _ unmarshalMarket]
  from c9 [of ?env oneFile] c9 [of ?env noFiles] c9 [of Map.empty noFiles]
    path unset present absent
  show ?thesis
    by (simp add: decode_mappingExample envMarketsFile_def)
qed

lemma markets_SubmitOrder: "markets (snd (SubmitOrder env now order e)) = markets e"
  by (simp add: SubmitOrder_def Let_def)

lemma markets_CancelOrders: "markets (snd (CancelOrders now refs e)) = markets e"
  by (simp add: CancelOrders_def)

lemma QueryMarkets_cached:
  "markets e \<noteq> Map.empty \<Longrightarrow> QueryMarkets dec env fs e = (Inr (markets e), e)"
  by (simp add: QueryMarkets_def)

lemma markets_perform: "markets e \<noteq> Map.empty \<Longrightarrow> markets (perform dec c e) = markets e"
  by (cases c) (simp_all add: QueryMarkets_cached markets_SubmitOrder markets_CancelOrders)

lemma markets_run: "markets e \<noteq> Map.empty \<Longrightarrow> markets (run dec cs e) = markets e"
  by (induction cs arbitrary: e) (simp_all add: run_Nil run_Cons markets_perform)

lemma defaultExampleMarkets_nonempty: "defaultExampleMarkets \<noteq> Map.empty"
  by (simp add: defaultExampleMarkets_def)

lemma stamped_nonempty:
  assumes "ms \<noteq> Map.empty"
  shows "(\<lambda>symbol. map_option (stamp symbol) (ms symbol)) \<noteq> Map.empty"
proof
  assume empty: "(\<lambda>symbol. map_option (stamp symbol) (ms symbol)) = Map.empty"
  have "ms symbol = None" for symbol
    using fun_cong [OF empty, of symbol] by simp
  then have "ms = Map.empty"
    by (rule ext)
  with assms show False ..
qed

lemma QueryMarkets_caches:
  assumes "QueryMarkets dec env fs e = (Inr catalog, e1)"
  shows "markets e1 = catalog \<and> catalog \<noteq> Map.empty"
proof (cases "markets e = Map.empty")
  case False
  with assms show ?thesis
    by (auto simp: QueryMarkets_cached)
next
  case True
  with assms obtain loaded where loaded: "loadMarketsFromEnv dec env fs = Inr loaded"
    by (auto simp: QueryMarkets_def split: sum.splits)
  let ?ms = "if loaded = Map.empty then defaultExampleMarkets else loaded"
  have "?ms \<noteq> Map.empty"
    by (simp add: defaultExampleMarkets_nonempty)
  from stamped_nonempty [OF this] assms True loaded show ?thesis
    by (auto simp: QueryMarkets_def Let_def)
qed

text \<open>
  C8. After one successful \<open>QueryMarkets\<close> call, every later \<open>QueryMarkets\<close> call of
  the process, after any calls in between and with any environment and file system,
  returns the same catalog and leaves the state alone.
\<close>

theorem C8_catalog_is_cached:
  assumes "QueryMarkets dec env fs e = (Inr catalog, e1)"
  shows "QueryMarkets dec env' fs' (run dec cs e1) = (Inr catalog, run dec cs e1)"
proof -
  from QueryMarkets_caches [OF assms] have "markets e1 = catalog" "markets e1 \<noteq> Map.empty"
    by simp_all
  with markets_run [of e1 dec cs]
  have "markets (run dec cs e1) = catalog" "markets (run dec cs e1) \<noteq> Map.empty"
    by simp_all
  with QueryMarkets_cached [of "run dec cs e1" dec env' fs'] show ?thesis
    by simp
qed

theorem C8_catalog_is_cached_witness:
  "\<exists>catalog e1.
     QueryMarkets unmarshalMarket Map.empty noFiles (New [] [] []) = (Inr catalog, e1) \<and>
     dom catalog = {''PM_BTC_15M_UP_YES_USDC'', ''PM_BTC_15M_UP_NO_USDC''} \<and>
     QueryMarkets unmarshalMarket
         [envMarketsJSON \<mapsto> ''{\"Y\":{\"symbol\":\"\",\"baseCurrency\":\"Y\"}}''] noFiles
         (run unmarshalMarket [CallSubmitOrder Map.empty 7 (exampleOrder ''A'')] e1) =
       (Inr catalog, run unmarshalMarket [CallSubmitOrder Map.empty 7 (exampleOrder ''A'')] e1) \<and>
     fst (QueryMarkets unmarshalMarket
         [envMarketsJSON \<mapsto> ''{\"Y\":{\"symbol\":\"\",\"baseCurrency\":\"Y\"}}''] noFiles
         (New [] [] [])) =
       Inr [''Y'' \<mapsto>
         zeroMarket\<lparr>Market.Exchange := ExchangePolymarket, Market.Symbol := ''Y'', BaseCurrency := ''Y''\<rparr>]"
proof -
  obtain catalog e1 where
    first: "QueryMarkets unmarshalMarket Map.empty noFiles (New [] [] []) = (Inr catalog, e1)"
    by (simp add: QueryMarkets_def Let_def New_def load_unset)
  then have "catalog = (\<lambda>symbol. map_option (stamp symbol) (defaultExampleMarkets symbol))"
    by (simp add: QueryMarkets_def Let_def New_def load_unset)
  then have keys: "dom catalog = {''PM_BTC_15M_UP_YES_USDC'', ''PM_BTC_15M_UP_NO_USDC''}"
    by (auto simp: defaultExampleMarkets_def dom_def split: if_splits)
  from C8_catalog_is_cached [OF first] first keys
    query_inline_mapping [of noFiles "[]" "[]" "[]", unfolded mappingExample_def]
  show ?thesis
    by blast
qed

lemma bySymbol_closed:
  "bySymbol ms out =
     (if \<exists>m \<in> set ms. Market.Symbol m = [] then
        Inl (DecodeError ''polymarket: market symbol is empty in json'' None)
      else Inr (out ++ map_of (rev (map (\<lambda>m. (Market.Symbol m, m)) ms))))"
proof (induction ms arbitrary: out)
  case Nil
  then show ?case by simp
next
  case (Cons m ms)
  show ?case
  proof (cases "Market.Symbol m = []")
    case True
    then show ?thesis by simp
  next
    case False
    have eq: "out(Market.Symbol m \<mapsto> m) ++ map_of (rev (map (\<lambda>m. (Market.Symbol m, m)) ms)) =
        out ++ map_of (rev (map (\<lambda>m. (Market.Symbol m, m)) (m # ms)))"
      by (rule ext) (simp add: map_add_def split: option.splits)
    have step: "bySymbol (m # ms) out = bySymbol ms (out(Market.Symbol m \<mapsto> m))"
      using False by simp
    have ex: "(\<exists>x \<in> set (m # ms). Market.Symbol x = []) \<longleftrightarrow> (\<exists>x \<in> set ms. Market.Symbol x = [])"
      using False by simp
    show ?thesis
      by (simp only: step ex Cons.IH eq)
  qed
qed

text \<open>
  C5 (amended). For every payload, decoding first stores it as a symbol-keyed mapping
  and accepts the mapping if and only if that raised no error and gave a non-empty map.
  Otherwise it stores the payload as an array of markets; it fails with \<open>DecodeError\<close>
  when that raises an error, fails with \<open>DecodeError\<close> when any record has an empty
  symbol (the loop stops at the first such record, and the error is one fixed message
  that identifies no record), and otherwise returns the map keyed by each record's
  symbol, a later record replacing an earlier one with the same symbol.
\<close>

theorem C5_decoding_policy:
  "decodeMarketsJSON dec b =
     (if fst (UnmarshalMarketMap dec b) = None \<and> snd (UnmarshalMarketMap dec b) \<noteq> Map.empty then
        Inr (snd (UnmarshalMarketMap dec b))
      else
        (case fst (UnmarshalMarkets dec b) of
           Some err \<Rightarrow> Inl (DecodeError ''polymarket: decode markets json failed: '' (Some err))
         | None \<Rightarrow>
             if \<exists>m \<in> set (snd (UnmarshalMarkets dec b)). Market.Symbol m = [] then
               Inl (DecodeError ''polymarket: market symbol is empty in json'' None)
             else
               Inr (map_of (rev (map (\<lambda>m. (Market.Symbol m, m)) (snd (UnmarshalMarkets dec b)))))))"
  by (simp add: decodeMarketsJSON_def bySymbol_closed split: prod.splits option.splits)

theorem C5_decoding_policy_witness:
  "decodeMarketsJSON unmarshalMarket
       ''[{\"symbol\":\"X\",\"baseCurrency\":\"X\",\"quoteCurrency\":\"USDC\"}]'' =
     Inr [''X'' \<mapsto>
       zeroMarket\<lparr>Market.Symbol := ''X'', BaseCurrency := ''X'', QuoteCurrency := ''USDC''\<rparr>] \<and>
   decodeMarketsJSON unmarshalMarket ''{\"Y\":{\"symbol\":\"\",\"baseCurrency\":\"Y\"}}'' =
     Inr [''Y'' \<mapsto> zeroMarket\<lparr>BaseCurrency := ''Y''\<rparr>]"
proof -
  have arr: "UnmarshalMarkets unmarshalMarket arrayExample =
      (None, [zeroMarket\<lparr>Market.Symbol := ''X'', BaseCurrency := ''X'', QuoteCurrency := ''USDC''\<rparr>])"
    by (simp add: UnmarshalMarkets_def parse_arrayExample unmarshal_X firstError_def)
  have noMap: "fst (UnmarshalMarketMap unmarshalMarket arrayExample) \<noteq> None"
    by (simp add: UnmarshalMarketMap_def parse_arrayExample)
  have mp: "UnmarshalMarketMap unmarshalMarket mappingExample =
      (None, [''Y'' \<mapsto> zeroMarket\<lparr>BaseCurrency := ''Y''\<rparr>])"
    by (simp add: UnmarshalMarketMap_def parse_mappingExample unmarshal_Y firstError_def)
  from C5_decoding_policy [of unmarshalMarket arrayExample] arr noMap
  have "decodeMarketsJSON unmarshalMarket arrayExample =
     Inr [''X'' \<mapsto>
       zeroMarket\<lparr>Market.Symbol := ''X'', BaseCurrency := ''X'', QuoteCurrency := ''USDC''\<rparr>]"
    by (simp add: zeroMarket_def)
  moreover from C5_decoding_policy [of unmarshalMarket mappingExample] mp
  have "decodeMarketsJSON unmarshalMarket mappingExample =
     Inr [''Y'' \<mapsto> zeroMarket\<lparr>BaseCurrency := ''Y''\<rparr>]"
    by simp
  ultimately show ?thesis
    unfolding arrayExample_def mappingExample_def by (rule conjI)
qed

text \<open>
  C5 as stated fails in its parenthesis: the error does not report the first record
  with an empty symbol. In the first payload that record is the first one (base currency
  Y), in the second it is the second one (base currency B); the two errors are the same
  value, which is the message alone.
\<close>

theorem C5_error_names_no_record:
  "decodeMarketsJSON unmarshalMarket ''[{\"symbol\":\"\",\"baseCurrency\":\"Y\"}]'' =
     Inl (DecodeError ''polymarket: market symbol is empty in json'' None) \<and>
   decodeMarketsJSON unmarshalMarket
       ''[{\"symbol\":\"X\"},{\"symbol\":\"\",\"baseCurrency\":\"B\"},{\"symbol\":\"\"}]'' =
     Inl (DecodeError ''polymarket: market symbol is empty in json'' None)"
  using decode_blankFirst decode_blankSecond
  unfolding blankFirst_def blankSecond_def by (rule conjI)

text \<open>
  C4 (amended). Given the catalog JSON \<open>{"Y":{"symbol":"","baseCurrency":"Y"}}\<close>,
  decoding succeeds on the mapping path with the one key Y, whose record has the empty
  symbol, and \<open>QueryMarkets\<close> returns the catalog with that record stamped: exchange
  polymarket, symbol Y from its key. The same record as an array,
  \<open>[{"symbol":"","baseCurrency":"Y"}]\<close>, fails with \<open>DecodeError\<close>.
\<close>

theorem C4_mapping_is_accepted:
  "decodeMarketsJSON unmarshalMarket ''{\"Y\":{\"symbol\":\"\",\"baseCurrency\":\"Y\"}}'' =
     Inr [''Y'' \<mapsto> zeroMarket\<lparr>BaseCurrency := ''Y''\<rparr>] \<and>
   fst (QueryMarkets unmarshalMarket
          [envMarketsJSON \<mapsto> ''{\"Y\":{\"symbol\":\"\",\"baseCurrency\":\"Y\"}}''] fs (New k s p)) =
     Inr [''Y'' \<mapsto>
       zeroMarket\<lparr>Market.Exchange := ExchangePolymarket, Market.Symbol := ''Y'', BaseCurrency := ''Y''\<rparr>] \<and>
   decodeMarketsJSON unmarshalMarket ''[{\"symbol\":\"\",\"baseCurrency\":\"Y\"}]'' =
     Inl (DecodeError ''polymarket: market symbol is empty in json'' None)"
  using decode_mappingExample query_inline_mapping [of fs k s p] decode_blankFirst
  unfolding mappingExample_def blankFirst_def by simp

text \<open>
  C4 as stated fails: the payload is an object, so it is stored as a symbol-keyed
  mapping, which is not empty, and loading succeeds. The symbol of a record is checked
  on the array path only.
\<close>

theorem C4_mapping_loads:
  "decodeMarketsJSON unmarshalMarket ''{\"Y\":{\"symbol\":\"\",\"baseCurrency\":\"Y\"}}'' =
     Inr [''Y'' \<mapsto> zeroMarket\<lparr>BaseCurrency := ''Y''\<rparr>] \<and>
   loadMarketsFromEnv unmarshalMarket
       [envMarketsJSON \<mapsto> ''{\"Y\":{\"symbol\":\"\",\"baseCurrency\":\"Y\"}}''] noFiles =
     Inr [''Y'' \<mapsto> zeroMarket\<lparr>BaseCurrency := ''Y''\<rparr>]"
  using decode_mappingExample load_inline_mapping [of noFiles]
  unfolding mappingExample_def by (rule conjI)

end
